theory Spec2Isabelle
  imports Main "HOL-Library.AList"
begin

section \<open>JavaScript values\<close>

text \<open>
  The plugin is written against values of type \<^verbatim>\<open>any\<close>. A value is one of the
  primitive kinds or a plain object, an insertion-ordered list of own properties.
  Numbers are integers here (no field of the plugin computes with them), and inherited
  properties (of \<^verbatim>\<open>Object.prototype\<close>, or the indices of a primitive string) are not
  modelled: a key that is not an own property reads as \<^verbatim>\<open>undefined\<close>.
\<close>

datatype jsval =
    Undefined
  | Null
  | Bool bool
  | Num int
  | Str string
  | Obj "(string \<times> jsval) list"

text \<open>The truth value JavaScript gives a value in \<^verbatim>\<open>if (v)\<close>, \<^verbatim>\<open>!v\<close> and \<^verbatim>\<open>v || w\<close>.\<close>

fun truthy :: "jsval \<Rightarrow> bool" where
  "truthy Undefined = False"
| "truthy Null = False"
| "truthy (Bool b) = b"
| "truthy (Num n) = (n \<noteq> 0)"
| "truthy (Str s) = (s \<noteq> [])"
| "truthy (Obj al) = True"

text \<open>\<^verbatim>\<open>v || w\<close>\<close>

definition or_else :: "jsval \<Rightarrow> jsval \<Rightarrow> jsval" where
  "or_else v w = (if truthy v then v else w)"

text \<open>The only exception the plugin's own statements can raise.\<close>

datatype error = TypeError

definition and_then :: "error + 'a \<Rightarrow> ('a \<Rightarrow> error + 'b) \<Rightarrow> error + 'b" where
  "and_then m f = (case m of Inl e \<Rightarrow> Inl e | Inr x \<Rightarrow> f x)"

text \<open>
  \<^verbatim>\<open>v[k]\<close> as a total lookup (own properties only), and as the statement of the source:
  reading a property of \<^verbatim>\<open>undefined\<close> or \<^verbatim>\<open>null\<close> throws.
\<close>

definition jsprop :: "jsval \<Rightarrow> string \<Rightarrow> jsval" where
  "jsprop v k =
     (case v of
        Obj al \<Rightarrow> (case map_of al k of Some x \<Rightarrow> x | None \<Rightarrow> Undefined)
      | _ \<Rightarrow> Undefined)"

definition get_prop :: "jsval \<Rightarrow> string \<Rightarrow> error + jsval" where
  "get_prop v k =
     (case v of
        Undefined \<Rightarrow> Inl TypeError
      | Null \<Rightarrow> Inl TypeError
      | _ \<Rightarrow> Inr (jsprop v k))"

text \<open>
  \<^verbatim>\<open>v[k] = x\<close>. The module is an ES module, hence strict code: creating a property on
  a primitive throws, as it does on \<^verbatim>\<open>undefined\<close> and \<^verbatim>\<open>null\<close>. On an object the
  property keeps its place if it exists and is appended otherwise. The result is the object
  after the assignment.
\<close>

definition set_prop :: "jsval \<Rightarrow> string \<Rightarrow> jsval \<Rightarrow> error + jsval" where
  "set_prop v k x =
     (case v of
        Obj al \<Rightarrow> Inr (Obj (AList.update k x al))
      | _ \<Rightarrow> Inl TypeError)"

text \<open>\<^verbatim>\<open>v[k1][k2] = x\<close>: the inner object is changed in place, so \<^verbatim>\<open>v\<close> sees it.\<close>

definition set_prop2 :: "jsval \<Rightarrow> string \<Rightarrow> string \<Rightarrow> jsval \<Rightarrow> error + jsval" where
  "set_prop2 v k1 k2 x =
     and_then (get_prop v k1) (\<lambda>inner.
     and_then (set_prop inner k2 x) (\<lambda>inner'.
     set_prop v k1 inner'))"

text \<open>\<^verbatim>\<open>delete v[k]\<close> on an object.\<close>

definition delete_prop :: "jsval \<Rightarrow> string \<Rightarrow> jsval" where
  "delete_prop v k = (case v of Obj al \<Rightarrow> Obj (AList.delete k al) | _ \<Rightarrow> v)"

text \<open>\<^verbatim>\<open>Object.keys(v)\<close>: the own keys of an object in insertion order.\<close>

definition object_keys :: "jsval \<Rightarrow> string list" where
  "object_keys v = (case v of Obj al \<Rightarrow> map fst al | _ \<Rightarrow> [])"

section \<open>The host document\<close>

text \<open>
  A host path is a string of keys separated by dots.
  \<^verbatim>\<open>"a.b".split(".")\<close> is \<^verbatim>\<open>["a", "b"]\<close>, and \<^verbatim>\<open>"".split(".")\<close> is \<^verbatim>\<open>[""]\<close>.
\<close>

fun split_on :: "char \<Rightarrow> string \<Rightarrow> string list" where
  "split_on c [] = [[]]"
| "split_on c (x # xs) =
     (if x = c then [] # split_on c xs
      else (case split_on c xs of
              [] \<Rightarrow> [[x]]
            | y # ys \<Rightarrow> (x # y) # ys))"

definition split_path :: "string \<Rightarrow> string list" where
  "split_path p = split_on (CHR ''.'') p"

text \<open>
  Modelled from the spec: the host's field storage by path (spec section 6; the host
  framework and its path library are not part of this repository). Reading walks the
  keys and stops at the first empty value, which it returns; a raw write sets the last
  key where the objects before it exist; the document's own \<^verbatim>\<open>set\<close> creates the objects
  on the way.
\<close>

fun walk :: "string list \<Rightarrow> jsval \<Rightarrow> jsval" where
  "walk [] v = v"
| "walk (k # ks) v = (let x = jsprop v k in if truthy x then walk ks x else x)"

definition set_key :: "jsval \<Rightarrow> string \<Rightarrow> jsval \<Rightarrow> jsval" where
  "set_key v k x = (case v of Obj al \<Rightarrow> Obj (AList.update k x al) | _ \<Rightarrow> v)"

fun put :: "string list \<Rightarrow> jsval \<Rightarrow> jsval \<Rightarrow> jsval" where
  "put [] x v = v"
| "put [k] x v = set_key v k x"
| "put (k # ks) x v =
     (let inner = jsprop v k in if truthy inner then set_key v k (put ks x inner) else v)"

definition as_obj :: "jsval \<Rightarrow> jsval" where
  "as_obj v = (case v of Obj al \<Rightarrow> v | _ \<Rightarrow> Obj [])"

fun put_create :: "string list \<Rightarrow> jsval \<Rightarrow> jsval \<Rightarrow> jsval" where
  "put_create [] x v = v"
| "put_create [k] x v = set_key (as_obj v) k x"
| "put_create (k # ks) x v = set_key (as_obj v) k (put_create ks x (jsprop v k))"

text \<open>
  The object the plugin's functions receive as \<^verbatim>\<open>this\<close> (or \<^verbatim>\<open>mongooseObj\<close>):
  which of the host's access primitives it has, its raw storage \<^verbatim>\<open>_doc\<close>, the
  properties plain indexing \<^verbatim>\<open>obj[key]\<close> finds, the instance override
  \<^verbatim>\<open>docLanguage\<close>, the host's \<^verbatim>\<open>isNew\<close> flag and the paths marked as changed.
  \<^verbatim>\<open>has_getLanguage\<close> says that the instance methods of the plugin are present, which
  is what the field hooks test with \<^verbatim>\<open>!this.getLanguage\<close>.
\<close>

record doc =
  has_getValue :: bool
  has_dgetValue :: bool
  has_setValue :: bool
  has_dsetValue :: bool
  has_getLanguage :: bool
  raw :: jsval
  own :: "(string \<times> jsval) list"
  docLanguage :: "string option"
  isNew :: bool
  modified :: "string list"

text \<open>
  Modelled from the spec: the host primitives \<^verbatim>\<open>getValue\<close> / \<^verbatim>\<open>$__getValue\<close> (raw
  read by path), \<^verbatim>\<open>setValue\<close> / \<^verbatim>\<open>$__setValue\<close> (raw write by path),
  \<^verbatim>\<open>markModified\<close>, the document's \<^verbatim>\<open>get\<close> on a path of the overlay,
  plain indexing, and the generic accessor \<^verbatim>\<open>mpath.get(path, obj, "_doc")\<close>, which
  reads inside \<^verbatim>\<open>obj._doc\<close> when the object has one.
\<close>

definition rawGet :: "doc \<Rightarrow> string \<Rightarrow> jsval" where
  "rawGet d path = walk (split_path path) (raw d)"

definition rawSet :: "doc \<Rightarrow> string \<Rightarrow> jsval \<Rightarrow> doc" where
  "rawSet d path x = d\<lparr>raw := put (split_path path) x (raw d)\<rparr>"

definition markModified :: "doc \<Rightarrow> string \<Rightarrow> doc" where
  "markModified d path = d\<lparr>modified := modified d @ [path]\<rparr>"

definition doc_get :: "doc \<Rightarrow> string \<Rightarrow> jsval" where
  "doc_get d path = walk (split_path path) (raw d)"

definition index_own :: "doc \<Rightarrow> string \<Rightarrow> jsval" where
  "index_own d key = (case map_of (own d) key of Some x \<Rightarrow> x | None \<Rightarrow> Undefined)"

definition mpath_get :: "string \<Rightarrow> doc \<Rightarrow> jsval" where
  "mpath_get path d =
     walk (split_path path) (if truthy (raw d) then raw d else Obj (own d))"

text \<open>Calling a method the object does not have throws.\<close>

definition invoke :: "bool \<Rightarrow> 'a \<Rightarrow> error + 'a" where
  "invoke present result = (if present then Inr result else Inl TypeError)"

section \<open>The access helpers (source lines 11 to 28)\<close>

text \<open>
  \<^verbatim>\<open>return mongooseObj.setValue ? mongooseObj.setValue(path, value)
                               : mongooseObj.$__setValue(path, value);\<close>
  The result of the source is unused by every caller; the model returns the document
  after the write.
\<close>

definition setPathValue :: "doc \<Rightarrow> string \<Rightarrow> jsval \<Rightarrow> error + doc" where
  "setPathValue mongooseObj path x =
     (if has_setValue mongooseObj then invoke (has_setValue mongooseObj) (rawSet mongooseObj path x)
      else invoke (has_dsetValue mongooseObj) (rawSet mongooseObj path x))"

definition getPathValue :: "doc \<Rightarrow> string \<Rightarrow> error + jsval" where
  "getPathValue mongooseObj path =
     (if has_getValue mongooseObj then invoke (has_getValue mongooseObj) (rawGet mongooseObj path)
      else if has_dgetValue mongooseObj then invoke (has_dgetValue mongooseObj) (rawGet mongooseObj path)
      else if truthy (index_own mongooseObj path) then Inr (index_own mongooseObj path)
      else Inr (mpath_get path mongooseObj))"

section \<open>Plugin options and the active language (source lines 4 to 8, 128 to 143)\<close>

record options =
  defaultLanguage :: string
  languages :: "string list"
  language :: "string option"

text \<open>An optional string is truthy when it is set and not empty.\<close>

definition str_or :: "string option \<Rightarrow> string \<Rightarrow> string" where
  "str_or s t = (case s of Some x \<Rightarrow> (if x \<noteq> [] then x else t) | None \<Rightarrow> t)"

text \<open>\<^verbatim>\<open>return this.docLanguage || options.language || options.defaultLanguage;\<close>\<close>

definition getLanguage :: "options \<Rightarrow> doc \<Rightarrow> string" where
  "getLanguage opts this = str_or (docLanguage this) (str_or (language opts) (defaultLanguage opts))"

definition getLanguages :: "options \<Rightarrow> string list" where
  "getLanguages opts = languages opts"

text \<open>
  \<^verbatim>\<open>lang && this.getLanguages().includes(lang)\<close>, also written with \<^verbatim>\<open>indexOf\<close>: the
  argument is truthy and strictly equal to one of the configured codes.
\<close>

definition accepts :: "options \<Rightarrow> jsval \<Rightarrow> bool" where
  "accepts opts lang =
     (truthy lang \<and> (case lang of Str s \<Rightarrow> s \<in> set (getLanguages opts) | _ \<Rightarrow> False))"

text \<open>\<^verbatim>\<open>lang.slice(0)\<close>, and the string an accepted argument is.\<close>

definition code_of :: "jsval \<Rightarrow> string" where
  "code_of lang = (case lang of Str s \<Rightarrow> s | _ \<Rightarrow> [])"

definition setLanguage :: "options \<Rightarrow> doc \<Rightarrow> jsval \<Rightarrow> doc" where
  "setLanguage opts this lang =
     (if accepts opts lang then this\<lparr>docLanguage := Some (code_of lang)\<rparr> else this)"

definition unsetLanguage :: "doc \<Rightarrow> doc" where
  "unsetLanguage this = this\<lparr>docLanguage := None\<rparr>"

section \<open>The field hooks (source lines 59 to 91)\<close>

text \<open>The host path \<^verbatim>\<open>`_i18n.${lang}.${path}`\<close>.\<close>

definition overlay_path :: "string \<Rightarrow> string \<Rightarrow> string" where
  "overlay_path lang path = ''_i18n.'' @ lang @ ''.'' @ path"

text \<open>
  \<^verbatim>\<open>schemaType.options.get = function (value) { ... }\<close>. The hook is a closure over
  \<^verbatim>\<open>options\<close>, \<^verbatim>\<open>path\<close> and the field's own option \<^verbatim>\<open>fallbackLang\<close>; the host
  calls it with the raw value of the slot. \<^verbatim>\<open>if (schemaType.options.fallbackLang)\<close> holds
  when the option is set to a non-empty code, that is when \<^verbatim>\<open>str_or fallbackLang []\<close>
  is not empty, and that is then the code.
\<close>

definition field_get :: "options \<Rightarrow> string \<Rightarrow> string option \<Rightarrow> doc \<Rightarrow> jsval \<Rightarrow> jsval" where
  "field_get opts path fallbackLang this x =
     (if \<not> has_getLanguage this \<or> getLanguage opts this = defaultLanguage opts then x
      else
        let val = doc_get this (overlay_path (getLanguage opts this) path) in
        if truthy val then val
        else if str_or fallbackLang [] \<noteq> [] then
          (let val2 = doc_get this (overlay_path (str_or fallbackLang []) path) in
           if truthy val2 then val2 else x)
        else doc_get this (overlay_path (getLanguage opts this) path))"

text \<open>
  Where the object that \<^verbatim>\<open>getPathValue(this, "_i18n")\<close> returned lives. The hooks
  change that object in place, so the storage it came from changes with it; the object
  \<^verbatim>\<open>{}\<close> that replaces an empty result is a new one.
\<close>

datatype origin = From_raw | From_own | Fresh

definition i18n_origin :: "doc \<Rightarrow> origin" where
  "i18n_origin this =
     (if has_getValue this \<or> has_dgetValue this then
        (if truthy (rawGet this ''_i18n'') then From_raw else Fresh)
      else if truthy (index_own this ''_i18n'') then From_own
      else if truthy (mpath_get ''_i18n'' this) then From_raw
      else Fresh)"

definition write_back :: "doc \<Rightarrow> origin \<Rightarrow> jsval \<Rightarrow> doc" where
  "write_back this org v =
     (case org of
        From_raw \<Rightarrow> this\<lparr>raw := set_key (raw this) ''_i18n'' v\<rparr>
      | From_own \<Rightarrow> this\<lparr>own := AList.update ''_i18n'' v (own this)\<rparr>
      | Fresh \<Rightarrow> this)"

text \<open>
  \<^verbatim>\<open>schemaType.options.set = function (value) { ... }\<close>. The result is the value the
  hook returns and the document after the hook's writes.
\<close>

definition field_set :: "options \<Rightarrow> string \<Rightarrow> doc \<Rightarrow> jsval \<Rightarrow> error + (jsval \<times> doc)" where
  "field_set opts path this x =
     (if \<not> has_getLanguage this \<or> getLanguage opts this = defaultLanguage opts then Inr (x, this)
      else
        let currentLang = getLanguage opts this; org = i18n_origin this in
        and_then (getPathValue this ''_i18n'') (\<lambda>g.
        let i18n0 = or_else g (Obj []) in
        and_then (get_prop i18n0 currentLang) (\<lambda>cur.
        and_then (set_prop i18n0 currentLang (or_else cur (Obj []))) (\<lambda>i18n1.
        and_then (set_prop2 i18n1 currentLang path x) (\<lambda>i18n2.
        and_then (setPathValue (write_back this org i18n2) ''_i18n'' i18n2) (\<lambda>d1.
        let d2 = markModified d1 ''_i18n'' in
        and_then (getPathValue d2 path) (\<lambda>defaultValue.
        Inr (if isNew d2 \<and> \<not> truthy defaultValue then x else defaultValue, d2))))))))"

text \<open>
  Modelled from the spec: the host's read and write of a field by its plain name
  (spec sections 4.2 and 6). A read hands the raw value of the slot to the field's get
  hook. A write runs the set hook and stores what the hook returns in the slot. Whether
  the host also marks the field itself as changed is the host's rule and is left out.
\<close>

definition read_field :: "options \<Rightarrow> string \<Rightarrow> string option \<Rightarrow> doc \<Rightarrow> jsval" where
  "read_field opts path fallbackLang this = field_get opts path fallbackLang this (rawGet this path)"

definition write_field :: "options \<Rightarrow> string \<Rightarrow> doc \<Rightarrow> jsval \<Rightarrow> error + (jsval \<times> doc)" where
  "write_field opts path this x =
     and_then (field_set opts path this x)
       (\<lambda>(r, d). Inr (r, d\<lparr>raw := put_create (split_path path) r (raw d)\<rparr>))"

section \<open>The aggregate view (source lines 96 to 126)\<close>

text \<open>
  The inner loop, \<^verbatim>\<open>options.languages.forEach\<close>, for one field:
  \<^verbatim>\<open>value[lang] = value[lang] || {};
  value[lang][fieldName] = value[lang][fieldName] || null;\<close>
\<close>

fun each_lang :: "string \<Rightarrow> string list \<Rightarrow> jsval \<Rightarrow> error + jsval" where
  "each_lang fieldName [] v = Inr v"
| "each_lang fieldName (lang # langs) v =
     (case and_then (get_prop v lang) (\<lambda>cur.
           and_then (set_prop v lang (or_else cur (Obj []))) (\<lambda>v1.
           and_then (get_prop v1 lang) (\<lambda>inner.
           and_then (get_prop inner fieldName) (\<lambda>old.
           set_prop2 v1 lang fieldName (or_else old Null))))) of
        Inl e \<Rightarrow> Inl e
      | Inr v2 \<Rightarrow> each_lang fieldName langs v2)"

text \<open>
  The outer loop, \<^verbatim>\<open>i18nFields.forEach\<close>. The base value is read from the document as
  it is at that moment, that is with the changes made so far to a stored overlay.
\<close>

fun each_field :: "options \<Rightarrow> origin \<Rightarrow> doc \<Rightarrow> string list \<Rightarrow> jsval \<Rightarrow> error + jsval" where
  "each_field opts org this [] v = Inr v"
| "each_field opts org this (fieldName # rest) v =
     (case and_then (each_lang fieldName (languages opts) v) (\<lambda>v1.
           and_then (getPathValue (write_back this org v1) fieldName) (\<lambda>b.
           set_prop2 v1 (defaultLanguage opts) fieldName b)) of
        Inl e \<Rightarrow> Inl e
      | Inr v2 \<Rightarrow> each_field opts org this rest v2)"

text \<open>The getter: the map it returns, and the document after the read.\<close>

definition i18n_get :: "options \<Rightarrow> string list \<Rightarrow> doc \<Rightarrow> error + (jsval \<times> doc)" where
  "i18n_get opts i18nFields this =
     (let org = i18n_origin this in
      and_then (getPathValue this ''_i18n'') (\<lambda>g.
      and_then (set_prop (or_else g (Obj [])) (defaultLanguage opts) (Obj [])) (\<lambda>v0.
      and_then (each_field opts org this i18nFields v0) (\<lambda>v.
      Inr (v, write_back this org v)))))"

text \<open>
  The setter. \<^verbatim>\<open>Object.keys(value[options.defaultLanguage]).forEach\<close> writes each
  entry of the default language to its base field.
\<close>

fun set_default_fields :: "doc \<Rightarrow> jsval \<Rightarrow> string list \<Rightarrow> error + doc" where
  "set_default_fields this dv [] = Inr this"
| "set_default_fields this dv (key # keys) =
     (case setPathValue this key (jsprop dv key) of
        Inl e \<Rightarrow> Inl e
      | Inr d \<Rightarrow> set_default_fields (markModified d key) dv keys)"

definition i18n_set :: "options \<Rightarrow> doc \<Rightarrow> jsval \<Rightarrow> error + doc" where
  "i18n_set opts this v =
     and_then (get_prop v (defaultLanguage opts)) (\<lambda>dv.
     and_then (if truthy dv then set_default_fields this dv (object_keys dv) else Inr this) (\<lambda>d.
     and_then (setPathValue d ''_i18n'' (if truthy dv then delete_prop v (defaultLanguage opts) else v)) (\<lambda>d'.
     Inr (markModified d' ''_i18n''))))"

section \<open>The per-language virtuals (source lines 41 to 58)\<close>

definition virtual_get :: "options \<Rightarrow> string \<Rightarrow> string \<Rightarrow> doc \<Rightarrow> error + jsval" where
  "virtual_get opts path lang this =
     (let key = (if lang = defaultLanguage opts then path else overlay_path lang path)
      in getPathValue this key)"

text \<open>
  The document's \<^verbatim>\<open>set\<close> on a path \<^verbatim>\<open>_i18n.<lang>.<path>\<close>, the only kind of path
  the plugin hands to it (source line 55). \<^verbatim>\<open>_i18n\<close> is not a stored path of the schema:
  it is the virtual that this plugin declares on source line 97. The host
  writes a path below a virtual on the object that the virtual's getter returns: it
  reads \<^verbatim>\<open>this._i18n\<close>, which runs the aggregate getter above, follows the keys after
  \<^verbatim>\<open>_i18n\<close> as far as the objects exist, and assigns the last key there. It runs no
  setter and marks nothing as changed. When the getter returned the stored overlay the
  assignment changes it in place; when it returned a new object the assignment is lost
  with that object.
\<close>

definition doc_set ::
  "options \<Rightarrow> string list \<Rightarrow> doc \<Rightarrow> string \<Rightarrow> jsval \<Rightarrow> error + doc" where
  "doc_set opts i18nFields this path x =
     and_then (i18n_get opts i18nFields this) (\<lambda>(v, d).
     Inr (write_back d (i18n_origin this) (put (tl (split_path path)) x v)))"

text \<open>
  The setter of \<^verbatim>\<open>field_lang\<close>. \<^verbatim>\<open>i18nFields\<close> is the list the plugin has collected,
  which the aggregate getter closes over.
\<close>

definition virtual_set ::
  "options \<Rightarrow> string list \<Rightarrow> string \<Rightarrow> string \<Rightarrow> doc \<Rightarrow> jsval \<Rightarrow> error + doc" where
  "virtual_set opts i18nFields path lang this x =
     (if lang = defaultLanguage opts then
        and_then (setPathValue this path x) (\<lambda>d. Inr (markModified d path))
      else doc_set opts i18nFields this (overlay_path lang path) x)"

section \<open>The static operations (source lines 145 to 191)\<close>

text \<open>
  Every application of the plugin closes over its own \<^verbatim>\<open>options\<close> object; the same
  object may have been handed to several applications. Options objects and schemas are
  therefore kept by address. A schema lists its paths, each with the nested schema
  \<^verbatim>\<open>schemaType.schema\<close> when it has one, and the address of the options object of the
  plugin applied to it, if any.
\<close>

record schema =
  plugin_options :: "nat option"
  paths :: "(string \<times> nat option) list"

type_synonym opts_heap = "nat \<Rightarrow> options"
type_synonym schemas = "nat \<Rightarrow> schema"

text \<open>
  The local function \<^verbatim>\<open>updateLanguage(schema, lang)\<close> of the static
  \<^verbatim>\<open>setLanguage\<close>. \<^verbatim>\<open>options\<close> is the object the static closed over, at address
  \<^verbatim>\<open>r\<close>. The nesting of schemas may be cyclic, so the recursion carries the depth
  left on the call stack; \<^verbatim>\<open>None\<close> is the stack running out.
\<close>

primrec updateLanguage_active ::
  "nat \<Rightarrow> schemas \<Rightarrow> nat \<Rightarrow> nat \<Rightarrow> string \<Rightarrow> opts_heap \<Rightarrow> opts_heap option" where
  "updateLanguage_active 0 G r s lang h = None"
| "updateLanguage_active (Suc n) G r s lang h =
     fold (\<lambda>(path, nested) acc.
             case acc of
               None \<Rightarrow> None
             | Some h' \<Rightarrow>
                 (case nested of
                    None \<Rightarrow> Some h'
                  | Some s' \<Rightarrow> updateLanguage_active n G r s' lang h'))
          (paths (G s))
          (Some (h(r := (h r)\<lparr>language := Some lang\<rparr>)))"

text \<open>The same for \<^verbatim>\<open>setDefaultLanguage\<close>.\<close>

primrec updateLanguage_default ::
  "nat \<Rightarrow> schemas \<Rightarrow> nat \<Rightarrow> nat \<Rightarrow> string \<Rightarrow> opts_heap \<Rightarrow> opts_heap option" where
  "updateLanguage_default 0 G r s lang h = None"
| "updateLanguage_default (Suc n) G r s lang h =
     fold (\<lambda>(path, nested) acc.
             case acc of
               None \<Rightarrow> None
             | Some h' \<Rightarrow>
                 (case nested of
                    None \<Rightarrow> Some h'
                  | Some s' \<Rightarrow> updateLanguage_default n G r s' lang h'))
          (paths (G s))
          (Some (h(r := (h r)\<lparr>defaultLanguage := lang\<rparr>)))"

text \<open>
  The statics of the model whose plugin closed over the options at \<^verbatim>\<open>r\<close> and whose
  schema \<^verbatim>\<open>this.schema\<close> is at \<^verbatim>\<open>s\<close>. The functions that the \<^verbatim>\<open>init\<close> hook
  installs on the connection (source lines 193 to 234) call these statics model by model.
\<close>

definition getDefaultLanguage :: "opts_heap \<Rightarrow> nat \<Rightarrow> string" where
  "getDefaultLanguage h r = defaultLanguage (h r)"

definition static_setLanguage ::
  "nat \<Rightarrow> schemas \<Rightarrow> nat \<Rightarrow> nat \<Rightarrow> jsval \<Rightarrow> opts_heap \<Rightarrow> opts_heap option" where
  "static_setLanguage depth G r s lang h =
     (if accepts (h r) lang then updateLanguage_active depth G r s (code_of lang) h
      else Some h)"

definition static_setDefaultLanguage ::
  "nat \<Rightarrow> schemas \<Rightarrow> nat \<Rightarrow> nat \<Rightarrow> jsval \<Rightarrow> opts_heap \<Rightarrow> opts_heap option" where
  "static_setDefaultLanguage depth G r s lang h =
     (if accepts (h r) lang then updateLanguage_default depth G r s (code_of lang) h
      else Some h)"

section \<open>Notions used in the statements\<close>

text \<open>
  A host document that carries the plugin: it has a raw read and a raw write primitive
  (either generation of the host's interface), the plugin's instance methods, and a
  storage object.
\<close>

definition is_obj :: "jsval \<Rightarrow> bool" where
  "is_obj v = (case v of Obj al \<Rightarrow> True | _ \<Rightarrow> False)"

definition is_document :: "doc \<Rightarrow> bool" where
  "is_document d =
     ((has_getValue d \<or> has_dgetValue d) \<and> (has_setValue d \<or> has_dsetValue d) \<and>
      has_getLanguage d \<and> is_obj (raw d))"

text \<open>
  The overlay of the data model (spec section 3) is a map from language to a map from
  field to value: the stored \<^verbatim>\<open>_i18n\<close> is absent (empty) or an object, and so is
  each of its entries.
\<close>

definition obj_or_empty :: "jsval \<Rightarrow> bool" where
  "obj_or_empty v = (case v of Obj al \<Rightarrow> True | _ \<Rightarrow> \<not> truthy v)"

definition overlay_ok :: "jsval \<Rightarrow> bool" where
  "overlay_ok g =
     (case g of Obj al \<Rightarrow> list_all (\<lambda>kv. obj_or_empty (snd kv)) al | _ \<Rightarrow> \<not> truthy g)"

text \<open>A marked field is a field of the document, not the overlay slot or a path inside it.\<close>

definition base_field :: "string \<Rightarrow> bool" where
  "base_field f = (hd (split_path f) \<noteq> ''_i18n'')"

text \<open>
  The overlay entry of a language and a field, in the two ways the source addresses it:
  \<^verbatim>\<open>overlay_at\<close> is what the host finds at the path \<^verbatim>\<open>_i18n.<lang>.<field>\<close> (the
  field hooks' reads and the per-language virtuals), \<^verbatim>\<open>overlay_entry\<close> is
  \<^verbatim>\<open>_i18n[lang][field]\<close> with the field as one key (the field hook's write and the
  aggregate view). They are the same entry when neither name contains a dot
  (lemma \<^verbatim>\<open>overlay_at_entry\<close>).
\<close>

definition overlay_at :: "doc \<Rightarrow> string \<Rightarrow> string \<Rightarrow> jsval" where
  "overlay_at d lang f = rawGet d (overlay_path lang f)"

definition overlay_entry :: "doc \<Rightarrow> string \<Rightarrow> string \<Rightarrow> jsval" where
  "overlay_entry d lang f = walk [''_i18n'', lang, f] (raw d)"

text \<open>An object all of whose entries are objects or empty.\<close>

definition entries_ok :: "jsval \<Rightarrow> bool" where
  "entries_ok v = (is_obj v \<and> (\<forall>k. obj_or_empty (jsprop v k)))"

text \<open>The overlay object the set hook builds for language L, field f and value x.\<close>

definition hook_overlay :: "jsval \<Rightarrow> string \<Rightarrow> string \<Rightarrow> jsval \<Rightarrow> jsval" where
  "hook_overlay g L f x =
     (let i18n0 = or_else g (Obj []);
          i18n1 = set_key i18n0 L (or_else (jsprop i18n0 L) (Obj []))
      in set_key i18n1 L (set_key (jsprop i18n1 L) f x))"

text \<open>
  The running example: languages \<^verbatim>\<open>en\<close>, \<^verbatim>\<open>fr\<close>, \<^verbatim>\<open>de\<close> with default
  \<^verbatim>\<open>en\<close>; a persisted document with title \<^verbatim>\<open>Hello\<close> and active language
  \<^verbatim>\<open>fr\<close>, without and with a French translation.
\<close>

definition ex_opts :: options where
  "ex_opts = \<lparr>defaultLanguage = ''en'', languages = [''en'', ''fr'', ''de''], language = None\<rparr>"

definition ex_doc :: doc where
  "ex_doc = \<lparr>has_getValue = False, has_dgetValue = True, has_setValue = False,
     has_dsetValue = True, has_getLanguage = True,
     raw = Obj [(''title'', Str ''Hello'')], own = [], docLanguage = Some ''fr'',
     isNew = False, modified = []\<rparr>"

definition ex_doc_fr :: doc where
  "ex_doc_fr = ex_doc\<lparr>raw := Obj [(''title'', Str ''Hello''),
       (''_i18n'', Obj [(''fr'', Obj [(''title'', Str ''Bonjour'')])])]\<rparr>"

text \<open>
  A parent schema at address 0 with a nested schema at address 1 under the path
  \<^verbatim>\<open>kids\<close>; the plugin was applied to each with an options object of its own
  (addresses 0 and 1, equal contents).
\<close>

definition ex_schemas :: schemas where
  "ex_schemas = (\<lambda>s. if s = 0 then \<lparr>plugin_options = Some 0, paths = [(''title'', None), (''kids'', Some 1)]\<rparr>
                      else \<lparr>plugin_options = Some 1, paths = [(''name'', None)]\<rparr>)"

definition ex_heap :: opts_heap where
  "ex_heap = (\<lambda>r. ex_opts)"

text \<open>A plain object with none of the host's primitives.\<close>

definition ex_plain :: doc where
  "ex_plain = \<lparr>has_getValue = False, has_dgetValue = False, has_setValue = False,
     has_dsetValue = False, has_getLanguage = False,
     raw = Undefined, own = [(''title'', Str ''Hello'')], docLanguage = None,
     isNew = False, modified = []\<rparr>"

section \<open>Basic facts\<close>

lemma doc_get_rawGet: "doc_get d p = rawGet d p"
  by (simp add: doc_get_def rawGet_def)

lemma and_then_Inr [simp]: "and_then (Inr x) f = f x"
  by (simp add: and_then_def)

lemma and_then_Inl [simp]: "and_then (Inl e) f = Inl e"
  by (simp add: and_then_def)

lemma is_obj_Obj [simp]: "is_obj (Obj al)"
  by (simp add: is_obj_def)

lemma is_objE: "is_obj v \<Longrightarrow> (\<And>al. v = Obj al \<Longrightarrow> P) \<Longrightarrow> P"
  by (cases v) (simp_all add: is_obj_def)

lemma is_obj_truthy: "is_obj v \<Longrightarrow> truthy v"
  by (cases v) (simp_all add: is_obj_def)

lemma jsprop_set_key: "is_obj v \<Longrightarrow> jsprop (set_key v k x) k' = (if k' = k then x else jsprop v k')"
  by (cases v) (simp_all add: is_obj_def set_key_def jsprop_def update_conv')

lemma jsprop_set_key_other: "k' \<noteq> k \<Longrightarrow> jsprop (set_key v k x) k' = jsprop v k'"
  by (cases v) (simp_all add: set_key_def jsprop_def update_conv')

lemma is_obj_set_key [simp]: "is_obj (set_key v k x) = is_obj v"
  by (cases v) (simp_all add: is_obj_def set_key_def)

lemma set_prop_obj: "is_obj v \<Longrightarrow> set_prop v k x = Inr (set_key v k x)"
  by (cases v) (simp_all add: is_obj_def set_prop_def set_key_def)

lemma get_prop_truthy: "truthy v \<Longrightarrow> get_prop v k = Inr (jsprop v k)"
  by (cases v) (simp_all add: get_prop_def)

lemma set_prop2_obj:
  "is_obj v \<Longrightarrow> is_obj (jsprop v k1) \<Longrightarrow>
   set_prop2 v k1 k2 x = Inr (set_key v k1 (set_key (jsprop v k1) k2 x))"
  by (simp add: set_prop2_def get_prop_truthy is_obj_truthy set_prop_obj)

lemma split_on_nonempty [simp]: "split_on c s \<noteq> []"
  by (induction s) (auto split: list.splits)

lemma split_on_append: "split_on c (a @ c # b) = split_on c a @ split_on c b"
  by (induction a) (auto split: list.splits)

lemma split_on_plain: "c \<notin> set s \<Longrightarrow> split_on c s = [s]"
  by (induction s) auto

lemma split_path_overlay:
  "split_path (overlay_path lang f) = ''_i18n'' # split_path lang @ split_path f"
proof -
  have "split_on (CHR ''.'') (''_i18n'' @ CHR ''.'' # (lang @ CHR ''.'' # f)) =
        split_on (CHR ''.'') ''_i18n'' @ split_on (CHR ''.'') (lang @ CHR ''.'' # f)"
    by (rule split_on_append)
  also have "split_on (CHR ''.'') ''_i18n'' = [''_i18n'']"
    by (rule split_on_plain) simp
  also have "split_on (CHR ''.'') (lang @ CHR ''.'' # f) =
        split_on (CHR ''.'') lang @ split_on (CHR ''.'') f"
    by (rule split_on_append)
  finally show ?thesis by (simp add: split_path_def overlay_path_def)
qed

lemma overlay_at_entry:
  assumes "CHR ''.'' \<notin> set lang" and "CHR ''.'' \<notin> set f"
  shows "overlay_at d lang f = overlay_entry d lang f"
proof -
  have "split_path lang = [lang]" and "split_path f = [f]"
    using assms by (simp_all add: split_path_def split_on_plain)
  then have "split_path (overlay_path lang f) = [''_i18n'', lang, f]"
    by (simp add: split_path_overlay)
  then show ?thesis
    by (simp add: overlay_at_def overlay_entry_def rawGet_def)
qed

lemma walk_set_key_other:
  "ps \<noteq> [] \<Longrightarrow> hd ps \<noteq> k \<Longrightarrow> walk ps (set_key t k x) = walk ps t"
  by (cases ps) (simp_all add: jsprop_set_key_other)

lemma is_obj_put_create: "ps \<noteq> [] \<Longrightarrow> is_obj (put_create ps x t)"
  by (induction ps x t rule: put_create.induct) (simp_all add: as_obj_def split: jsval.splits)

lemma is_obj_as_obj [simp]: "is_obj (as_obj v)"
  by (cases v) (simp_all add: as_obj_def)

lemma jsprop_as_obj [simp]: "jsprop (as_obj v) k = jsprop v k"
  by (cases v) (simp_all add: as_obj_def jsprop_def)

lemma walk_put_create: "ps \<noteq> [] \<Longrightarrow> walk ps (put_create ps x t) = x"
proof (induction ps x t rule: put_create.induct)
  case (1 x v)
  then show ?case by simp
next
  case (2 k x v)
  then show ?case by (simp add: jsprop_set_key)
next
  case (3 k k' ks x v)
  have "is_obj (put_create (k' # ks) x (jsprop v k))"
    by (rule is_obj_put_create) simp
  then show ?case using 3 by (simp add: jsprop_set_key is_obj_truthy)
qed

lemma jsprop_put_create_other:
  "ps \<noteq> [] \<Longrightarrow> hd ps \<noteq> k \<Longrightarrow> jsprop (put_create ps x t) k = jsprop t k"
  by (induction ps x t rule: put_create.induct) (simp_all add: jsprop_set_key)

lemma getPathValue_document: "is_document d \<Longrightarrow> getPathValue d p = Inr (rawGet d p)"
  by (auto simp: is_document_def getPathValue_def invoke_def)

lemma setPathValue_document: "is_document d \<Longrightarrow> setPathValue d p x = Inr (rawSet d p x)"
  by (auto simp: is_document_def setPathValue_def invoke_def)

lemma rawGet_i18n: "rawGet d ''_i18n'' = jsprop (raw d) ''_i18n''"
  by (simp add: rawGet_def split_path_def Let_def)

lemma rawSet_i18n: "rawSet d ''_i18n'' x = d\<lparr>raw := set_key (raw d) ''_i18n'' x\<rparr>"
  by (simp add: rawSet_def split_path_def)

lemma i18n_origin_document:
  "is_document d \<Longrightarrow> i18n_origin d = (if truthy (rawGet d ''_i18n'') then From_raw else Fresh)"
  by (auto simp: is_document_def i18n_origin_def)

lemma set_key_twice [simp]: "set_key (set_key v k x) k y = set_key v k y"
  by (cases v) (simp_all add: set_key_def)

lemma obj_or_emptyE:
  "obj_or_empty v \<Longrightarrow> (is_obj v \<Longrightarrow> P) \<Longrightarrow> (\<not> truthy v \<Longrightarrow> P) \<Longrightarrow> P"
  by (cases v) (auto simp: obj_or_empty_def)

lemma or_else_obj: "obj_or_empty v \<Longrightarrow> is_obj (or_else v (Obj []))"
  by (cases v) (auto simp: obj_or_empty_def or_else_def)

lemma overlay_ok_entry: "overlay_ok g \<Longrightarrow> obj_or_empty (jsprop g k)"
proof (cases g)
  case (Obj al)
  assume "overlay_ok g"
  with Obj have all: "list_all (\<lambda>kv. obj_or_empty (snd kv)) al" by (simp add: overlay_ok_def)
  show ?thesis
  proof (cases "map_of al k")
    case None
    then show ?thesis using Obj by (simp add: jsprop_def obj_or_empty_def)
  next
    case (Some x)
    then have "(k, x) \<in> set al" by (rule map_of_SomeD)
    with all have "obj_or_empty x" by (auto simp: list_all_iff)
    then show ?thesis using Obj Some by (simp add: jsprop_def)
  qed
qed (simp_all add: jsprop_def obj_or_empty_def)

lemma overlay_ok_self: "overlay_ok g \<Longrightarrow> obj_or_empty g"
  by (cases g) (simp_all add: overlay_ok_def obj_or_empty_def)

section \<open>Reading a field by its plain name\<close>

text \<open>
  C1 (as stated, refuted). With active language \<^verbatim>\<open>fr\<close>, no fallback language and no
  French entry, reading \<^verbatim>\<open>title\<close> gives \<^verbatim>\<open>undefined\<close>, not the base value
  \<^verbatim>\<open>Hello\<close>: the last branch of the get hook returns the overlay lookup again.
\<close>

theorem C1_counterexample:
  "has_getLanguage ex_doc \<and> getLanguage ex_opts ex_doc = ''fr'' \<and>
   ''fr'' \<noteq> defaultLanguage ex_opts \<and>
   overlay_at ex_doc ''fr'' ''title'' = Undefined \<and>
   rawGet ex_doc ''title'' = Str ''Hello'' \<and>
   read_field ex_opts ''title'' None ex_doc = Undefined \<and>
   read_field ex_opts ''title'' None ex_doc \<noteq> rawGet ex_doc ''title''"
  by (simp add: ex_doc_def ex_opts_def getLanguage_def str_or_def overlay_at_def rawGet_def
      overlay_path_def split_path_def jsprop_def read_field_def field_get_def doc_get_def)

text \<open>
  C1 (amended). For a document whose active language differs from the default language
  and a marked field with no fallback language and no (non-empty) overlay entry for the
  active language, reading the field by its plain name does not fail and returns that
  empty overlay lookup itself, not the base value.
\<close>

theorem C1_read_without_fallback:
  assumes "has_getLanguage d"
    and "getLanguage opts d \<noteq> defaultLanguage opts"
    and "str_or fallbackLang [] = []"
    and "\<not> truthy (overlay_at d (getLanguage opts d) f)"
  shows "read_field opts f fallbackLang d = overlay_at d (getLanguage opts d) f \<and>
         \<not> truthy (read_field opts f fallbackLang d)"
  using assms by (simp add: read_field_def field_get_def doc_get_rawGet overlay_at_def Let_def)

theorem C1_read_without_fallback_witness:
  "has_getLanguage ex_doc \<and> getLanguage ex_opts ex_doc \<noteq> defaultLanguage ex_opts \<and>
   str_or None [] = [] \<and> \<not> truthy (overlay_at ex_doc (getLanguage ex_opts ex_doc) ''title'') \<and>
   read_field ex_opts ''title'' None ex_doc = overlay_at ex_doc (getLanguage ex_opts ex_doc) ''title'' \<and>
   \<not> truthy (read_field ex_opts ''title'' None ex_doc)"
proof -
  have a: "has_getLanguage ex_doc" by (simp add: ex_doc_def)
  have b: "getLanguage ex_opts ex_doc \<noteq> defaultLanguage ex_opts"
    by (simp add: ex_doc_def ex_opts_def getLanguage_def str_or_def)
  have c: "str_or None [] = []" by (simp add: str_or_def)
  have e: "\<not> truthy (overlay_at ex_doc (getLanguage ex_opts ex_doc) ''title'')"
    by (simp add: ex_doc_def ex_opts_def getLanguage_def str_or_def overlay_at_def rawGet_def
        overlay_path_def split_path_def jsprop_def)
  from C1_read_without_fallback [OF a b c e] a b c e show ?thesis by simp
qed



section \<open>The access helpers\<close>

text \<open>
  C10 (as stated, refuted on the write path). An object with neither \<^verbatim>\<open>setValue\<close> nor
  \<^verbatim>\<open>$__setValue\<close> makes \<^verbatim>\<open>setPathValue\<close> call a method that is not there.
\<close>

theorem C10_counterexample:
  "\<not> has_setValue (ex_doc\<lparr>has_dsetValue := False\<rparr>) \<and>
   \<not> has_dsetValue (ex_doc\<lparr>has_dsetValue := False\<rparr>) \<and>
   setPathValue (ex_doc\<lparr>has_dsetValue := False\<rparr>) ''title'' (Str ''Salut'') = Inl TypeError"
  by (simp add: ex_doc_def setPathValue_def invoke_def)

lemma walk_missing: "jsprop v (hd ps) = Undefined \<Longrightarrow> ps \<noteq> [] \<Longrightarrow> walk ps v = Undefined"
  by (cases ps) simp_all

text \<open>
  C10 (amended). The read helper never throws: it uses the host's raw read primitive when
  the object has one (\<^verbatim>\<open>getValue\<close> before \<^verbatim>\<open>$__getValue\<close>), else the object's own
  property of that name when it is non-empty, else the generic path accessor, so that a
  missing capability or an absent value reads as \<^verbatim>\<open>undefined\<close>. The write helper
  probes \<^verbatim>\<open>setValue\<close> and then \<^verbatim>\<open>$__setValue\<close> and has no generic fallback: with one
  of them it performs the raw write, with neither it throws a \<^verbatim>\<open>TypeError\<close>.
\<close>

theorem C10_access_helpers:
  "getPathValue d p =
     Inr (if has_getValue d \<or> has_dgetValue d then rawGet d p
          else if truthy (index_own d p) then index_own d p
          else mpath_get p d) \<and>
   (\<not> has_getValue d \<and> \<not> has_dgetValue d \<and> \<not> truthy (index_own d p) \<and>
    jsprop (if truthy (raw d) then raw d else Obj (own d)) (hd (split_path p)) = Undefined
      \<longrightarrow> getPathValue d p = Inr Undefined) \<and>
   setPathValue d p x =
     (if has_setValue d \<or> has_dsetValue d then Inr (rawSet d p x) else Inl TypeError)"
  by (auto simp: getPathValue_def setPathValue_def invoke_def mpath_get_def split_path_def
      walk_missing)

theorem C10_access_helpers_witness:
  "getPathValue ex_plain ''title'' = Inr (Str ''Hello'') \<and>
   getPathValue ex_plain ''subtitle.text'' = Inr Undefined \<and>
   getPathValue ex_doc ''title'' = Inr (Str ''Hello'') \<and>
   setPathValue ex_plain ''title'' (Str ''Salut'') = Inl TypeError \<and>
   setPathValue ex_doc ''title'' (Str ''Salut'') = Inr (rawSet ex_doc ''title'' (Str ''Salut''))"
proof -
  have a: "\<not> has_getValue ex_plain \<and> \<not> has_dgetValue ex_plain \<and>
      \<not> truthy (index_own ex_plain ''subtitle.text'') \<and>
      jsprop (if truthy (raw ex_plain) then raw ex_plain else Obj (own ex_plain))
        (hd (split_path ''subtitle.text'')) = Undefined"
    by (simp add: ex_plain_def index_own_def split_path_def jsprop_def)
  have b: "\<not> has_getValue ex_plain \<and> \<not> has_dgetValue ex_plain \<and>
      truthy (index_own ex_plain ''title'') \<and> index_own ex_plain ''title'' = Str ''Hello''"
    by (simp add: ex_plain_def index_own_def)
  have c: "has_dgetValue ex_doc \<and> has_dsetValue ex_doc \<and> rawGet ex_doc ''title'' = Str ''Hello''"
    by (simp add: ex_doc_def rawGet_def split_path_def jsprop_def)
  have e: "\<not> has_setValue ex_plain \<and> \<not> has_dsetValue ex_plain"
    by (simp add: ex_plain_def)
  from C10_access_helpers [of ex_plain "''subtitle.text''" "Str ''Salut''"] a
  have 1: "getPathValue ex_plain ''subtitle.text'' = Inr Undefined" by blast
  from C10_access_helpers [of ex_plain "''title''" "Str ''Salut''"] b e
  have 2: "getPathValue ex_plain ''title'' = Inr (Str ''Hello'')"
    and 3: "setPathValue ex_plain ''title'' (Str ''Salut'') = Inl TypeError" by simp_all
  from C10_access_helpers [of ex_doc "''title''" "Str ''Salut''"] c
  have 4: "getPathValue ex_doc ''title'' = Inr (Str ''Hello'')"
    and 5: "setPathValue ex_doc ''title'' (Str ''Salut'') = Inr (rawSet ex_doc ''title'' (Str ''Salut''))"
    by simp_all
  from 1 2 3 4 5 show ?thesis by simp
qed

section \<open>The language setters\<close>

lemma not_accepts:
  "\<not> truthy lang \<or> lang \<notin> Str ` set (languages opts) \<Longrightarrow> \<not> accepts opts lang"
  by (cases lang) (auto simp: accepts_def getLanguages_def)

text \<open>
  C7. For a language code that is empty or not a member of the configured set, the
  instance-level setter leaves the document (and its override) unchanged, and the static
  active-language and default-language setters leave every options object unchanged,
  those of nested schemas included; none of them raises an error, whatever the depth of
  the schema nesting.
\<close>

theorem C7_invalid_language_noop:
  assumes "\<not> truthy lang \<or> lang \<notin> Str ` set (languages opts)"
    and "h r = opts"
  shows "setLanguage opts d lang = d \<and>
         static_setLanguage depth G r s lang h = Some h \<and>
         static_setDefaultLanguage depth G r s lang h = Some h"
  using not_accepts [OF assms(1)] assms(2)
  by (simp add: setLanguage_def static_setLanguage_def static_setDefaultLanguage_def)

theorem C7_invalid_language_noop_witness:
  "setLanguage ex_opts ex_doc (Str ''es'') = ex_doc \<and>
   static_setLanguage 0 ex_schemas 0 0 (Str ''es'') ex_heap = Some ex_heap \<and>
   static_setDefaultLanguage 0 ex_schemas 0 0 (Str ''es'') ex_heap = Some ex_heap \<and>
   setLanguage ex_opts ex_doc (Str []) = ex_doc \<and>
   static_setLanguage 3 ex_schemas 0 0 Undefined ex_heap = Some ex_heap \<and>
   static_setDefaultLanguage 3 ex_schemas 0 0 Null ex_heap = Some ex_heap"
proof -
  have a: "\<not> truthy (Str ''es'') \<or> Str ''es'' \<notin> Str ` set (languages ex_opts)"
    by (simp add: ex_opts_def image_iff)
  have b: "\<not> truthy (Str []) \<or> Str [] \<notin> Str ` set (languages ex_opts)" by simp
  have c: "\<not> truthy Undefined \<or> Undefined \<notin> Str ` set (languages ex_opts)" by simp
  have e: "\<not> truthy Null \<or> Null \<notin> Str ` set (languages ex_opts)" by simp
  have h: "ex_heap 0 = ex_opts" by (simp add: ex_heap_def)
  note inst = C7_invalid_language_noop [where opts = ex_opts and h = ex_heap and r = 0
      and d = ex_doc and G = ex_schemas and s = 0]
  from inst [where lang = "Str ''es''" and depth = 0, OF a h]
       inst [where lang = "Str []" and depth = 0, OF b h]
       inst [where lang = Undefined and depth = 3, OF c h]
       inst [where lang = Null and depth = 3, OF e h]
  show ?thesis by simp
qed

lemma fold_keeps:
  assumes "\<And>x. x \<in> set xs \<Longrightarrow> step x None = None"
    and "\<And>x. x \<in> set xs \<Longrightarrow> step x (Some H) = None \<or> step x (Some H) = Some H"
    and "acc = None \<or> acc = Some H"
  shows "fold step xs acc = None \<or> fold step xs acc = Some H"
  using assms
proof (induction xs arbitrary: acc)
  case Nil
  then show ?case by simp
next
  case (Cons x xs)
  have "step x acc = None \<or> step x acc = Some H"
    using Cons.prems by (cases acc) auto
  then show ?case using Cons by simp
qed

lemma updateLanguage_default_frame:
  "updateLanguage_default n G r s lang h = Some h' \<Longrightarrow>
   h' = h(r := (h r)\<lparr>defaultLanguage := lang\<rparr>)"
proof (induction n arbitrary: s h h')
  case 0
  then show ?case by simp
next
  case (Suc n)
  let ?H = "h(r := (h r)\<lparr>defaultLanguage := lang\<rparr>)"
  let ?step = "\<lambda>(path :: string, nested) acc.
             case acc of
               None \<Rightarrow> None
             | Some h' \<Rightarrow>
                 (case nested of
                    None \<Rightarrow> Some h'
                  | Some s' \<Rightarrow> updateLanguage_default n G r s' lang h')"
  have again: "?H(r := (?H r)\<lparr>defaultLanguage := lang\<rparr>) = ?H" by simp
  have "fold ?step (paths (G s)) (Some ?H) = None \<or> fold ?step (paths (G s)) (Some ?H) = Some ?H"
  proof (rule fold_keeps)
    fix x assume "x \<in> set (paths (G s))"
    show "?step x None = None" by (cases x) simp
    show "?step x (Some ?H) = None \<or> ?step x (Some ?H) = Some ?H"
    proof (cases x)
      case (Pair p nested)
      show ?thesis
      proof (cases nested)
        case None
        with Pair show ?thesis by simp
      next
        case (Some s')
        show ?thesis
        proof (cases "updateLanguage_default n G r s' lang ?H")
          case None
          with Pair Some show ?thesis by simp
        next
          case (Some h'')
          from Suc.IH [OF this] have "h'' = ?H(r := (?H r)\<lparr>defaultLanguage := lang\<rparr>)" .
          with again have "h'' = ?H" by (simp only:)
          with Pair \<open>nested = Some s'\<close> Some show ?thesis by simp
        qed
      qed
    qed
  qed simp
  with Suc.prems show ?case by simp
qed

lemma updateLanguage_active_frame:
  "updateLanguage_active n G r s lang h = Some h' \<Longrightarrow>
   h' = h(r := (h r)\<lparr>language := Some lang\<rparr>)"
proof (induction n arbitrary: s h h')
  case 0
  then show ?case by simp
next
  case (Suc n)
  let ?H = "h(r := (h r)\<lparr>language := Some lang\<rparr>)"
  let ?step = "\<lambda>(path :: string, nested) acc.
             case acc of
               None \<Rightarrow> None
             | Some h' \<Rightarrow>
                 (case nested of
                    None \<Rightarrow> Some h'
                  | Some s' \<Rightarrow> updateLanguage_active n G r s' lang h')"
  have again: "?H(r := (?H r)\<lparr>language := Some lang\<rparr>) = ?H" by simp
  have "fold ?step (paths (G s)) (Some ?H) = None \<or> fold ?step (paths (G s)) (Some ?H) = Some ?H"
  proof (rule fold_keeps)
    fix x assume "x \<in> set (paths (G s))"
    show "?step x None = None" by (cases x) simp
    show "?step x (Some ?H) = None \<or> ?step x (Some ?H) = Some ?H"
    proof (cases x)
      case (Pair p nested)
      show ?thesis
      proof (cases nested)
        case None
        with Pair show ?thesis by simp
      next
        case (Some s')
        show ?thesis
        proof (cases "updateLanguage_active n G r s' lang ?H")
          case None
          with Pair Some show ?thesis by simp
        next
          case (Some h'')
          from Suc.IH [OF this] have "h'' = ?H(r := (?H r)\<lparr>language := Some lang\<rparr>)" .
          with again have "h'' = ?H" by (simp only:)
          with Pair \<open>nested = Some s'\<close> Some show ?thesis by simp
        qed
      qed
    qed
  qed simp
  with Suc.prems show ?case by simp
qed

text \<open>
  C6 (the code departs from the claim). The parent's static \<^verbatim>\<open>setDefaultLanguage\<close>
  is called with the configured code \<^verbatim>\<open>fr\<close>. The walk reaches the nested schema, but
  every visit assigns to the options object the static closed over (address 0): the
  nested schema's own options (address 1) keep \<^verbatim>\<open>en\<close>. The active-language setter
  behaves the same way. The two frame lemmas above say so for every input.
\<close>

theorem C6_nested_schema_not_updated:
  "paths (ex_schemas 0) = [(''title'', None), (''kids'', Some 1)] \<and>
   plugin_options (ex_schemas 0) = Some 0 \<and> plugin_options (ex_schemas 1) = Some 1 \<and>
   accepts (ex_heap 0) (Str ''fr'') \<and>
   (case static_setDefaultLanguage 5 ex_schemas 0 0 (Str ''fr'') ex_heap of
      None \<Rightarrow> False
    | Some h' \<Rightarrow> getDefaultLanguage h' 0 = ''fr'' \<and> getDefaultLanguage h' 1 = ''en'') \<and>
   (case static_setLanguage 5 ex_schemas 0 0 (Str ''fr'') ex_heap of
      None \<Rightarrow> False
    | Some h' \<Rightarrow> language (h' 0) = Some ''fr'' \<and> language (h' 1) = None)"
  by (simp add: ex_schemas_def ex_heap_def ex_opts_def accepts_def getLanguages_def
      static_setDefaultLanguage_def static_setLanguage_def code_of_def getDefaultLanguage_def
      eval_nat_numeral)

section \<open>Writing a field by its plain name\<close>

lemma is_document_write_back: "is_document d \<Longrightarrow> is_document (write_back d org x)"
  by (cases org) (simp_all add: write_back_def is_document_def)

lemma raw_write_back_set:
  "set_key (raw (write_back d org x)) ''_i18n'' x = set_key (raw d) ''_i18n'' x"
  by (cases org) (simp_all add: write_back_def)

lemma write_back_then_set:
  "is_document d \<Longrightarrow>
   setPathValue (write_back d org x) ''_i18n'' x =
   Inr (write_back d org x\<lparr>raw := set_key (raw d) ''_i18n'' x\<rparr>)"
  by (simp add: setPathValue_document is_document_write_back rawSet_i18n raw_write_back_set)

lemma overlay_ok_or_else:
  assumes "overlay_ok g"
  shows "is_obj (or_else g (Obj []))" and "obj_or_empty (jsprop (or_else g (Obj [])) k)"
proof -
  show "is_obj (or_else g (Obj []))"
    using assms by (simp add: or_else_obj overlay_ok_self)
  show "obj_or_empty (jsprop (or_else g (Obj [])) k)"
  proof (cases "truthy g")
    case True
    then show ?thesis using assms by (simp add: or_else_def overlay_ok_entry)
  next
    case False
    then show ?thesis by (simp add: or_else_def jsprop_def obj_or_empty_def)
  qed
qed

lemma hook_overlay_entry:
  assumes "overlay_ok g"
  shows "is_obj (hook_overlay g L f x)"
    and "is_obj (jsprop (hook_overlay g L f x) L)"
    and "jsprop (jsprop (hook_overlay g L f x) L) f = x"
proof -
  let ?i0 = "or_else g (Obj [])"
  let ?i1 = "set_key ?i0 L (or_else (jsprop ?i0 L) (Obj []))"
  have o0: "is_obj ?i0" and e0: "obj_or_empty (jsprop ?i0 L)"
    using overlay_ok_or_else [OF assms] by simp_all
  have o1: "is_obj ?i1" using o0 by simp
  have s1: "jsprop ?i1 L = or_else (jsprop ?i0 L) (Obj [])"
    using o0 by (simp add: jsprop_set_key)
  have os: "is_obj (jsprop ?i1 L)" using e0 s1 by (simp add: or_else_obj)
  show "is_obj (hook_overlay g L f x)"
    using o1 by (simp add: hook_overlay_def Let_def)
  have "jsprop (hook_overlay g L f x) L = set_key (jsprop ?i1 L) f x"
    using o1 by (simp add: hook_overlay_def Let_def jsprop_set_key)
  then show "is_obj (jsprop (hook_overlay g L f x) L)"
    and "jsprop (jsprop (hook_overlay g L f x) L) f = x"
    using os by (simp_all add: jsprop_set_key)
qed

lemma hook_overlay_steps:
  assumes "overlay_ok g"
  shows "and_then (get_prop (or_else g (Obj [])) L) (\<lambda>cur.
         and_then (set_prop (or_else g (Obj [])) L (or_else cur (Obj []))) (\<lambda>i18n1.
         and_then (set_prop2 i18n1 L f x) k)) = k (hook_overlay g L f x)"
proof -
  let ?i0 = "or_else g (Obj [])"
  let ?i1 = "set_key ?i0 L (or_else (jsprop ?i0 L) (Obj []))"
  have o0: "is_obj ?i0" and e0: "obj_or_empty (jsprop ?i0 L)"
    using overlay_ok_or_else [OF assms] by simp_all
  have o1: "is_obj ?i1" using o0 by simp
  have s1: "jsprop ?i1 L = or_else (jsprop ?i0 L) (Obj [])"
    using o0 by (simp add: jsprop_set_key)
  have os: "is_obj (jsprop ?i1 L)" using e0 s1 by (simp add: or_else_obj)
  have a: "get_prop ?i0 L = Inr (jsprop ?i0 L)"
    using o0 by (simp add: get_prop_truthy is_obj_truthy)
  have b: "set_prop ?i0 L (or_else (jsprop ?i0 L) (Obj [])) = Inr ?i1"
    using o0 by (simp add: set_prop_obj)
  have c: "set_prop2 ?i1 L f x = Inr (hook_overlay g L f x)"
    using o1 os by (simp add: set_prop2_obj hook_overlay_def Let_def)
  show ?thesis by (simp add: a b c)
qed

lemma field_set_document:
  assumes doc: "is_document d"
    and lang: "getLanguage opts d \<noteq> defaultLanguage opts"
    and ok: "overlay_ok (rawGet d ''_i18n'')"
    and bf: "base_field f"
  shows "\<exists>d'. field_set opts f d x =
           Inr (if isNew d \<and> \<not> truthy (rawGet d f) then x else rawGet d f, d') \<and>
         raw d' = set_key (raw d) ''_i18n'' (hook_overlay (rawGet d ''_i18n'') (getLanguage opts d) f x) \<and>
         modified d' = modified d @ [''_i18n''] \<and> isNew d' = isNew d \<and>
         docLanguage d' = docLanguage d \<and> is_document d'"
proof -
  let ?L = "getLanguage opts d"
  let ?g = "rawGet d ''_i18n''"
  let ?X = "hook_overlay ?g ?L f x"
  let ?org = "i18n_origin d"
  let ?d1 = "write_back d ?org ?X\<lparr>raw := set_key (raw d) ''_i18n'' ?X\<rparr>"
  let ?d2 = "markModified ?d1 ''_i18n''"
  have hg: "has_getLanguage d" using doc by (simp add: is_document_def)
  have d2doc: "is_document ?d2"
    using is_document_write_back [OF doc, of ?org ?X] doc
    by (simp add: is_document_def markModified_def)
  have "rawGet ?d2 f = walk (split_path f) (set_key (raw d) ''_i18n'' ?X)"
    by (simp add: rawGet_def markModified_def)
  also have "\<dots> = walk (split_path f) (raw d)"
    using bf by (simp add: walk_set_key_other base_field_def split_path_def)
  finally have base: "rawGet ?d2 f = rawGet d f" by (simp add: rawGet_def)
  have new: "isNew ?d2 = isNew d"
    by (cases ?org) (simp_all add: markModified_def write_back_def)
  have dl: "docLanguage ?d2 = docLanguage d"
    by (cases ?org) (simp_all add: markModified_def write_back_def)
  have md: "modified ?d2 = modified d @ [''_i18n'']"
    by (cases ?org) (simp_all add: markModified_def write_back_def)
  have "field_set opts f d x =
      Inr (if isNew ?d2 \<and> \<not> truthy (rawGet ?d2 f) then x else rawGet ?d2 f, ?d2)"
    unfolding field_set_def Let_def
    using hg lang
    by (simp add: getPathValue_document [OF doc] hook_overlay_steps [OF ok]
        write_back_then_set [OF doc] getPathValue_document [OF d2doc])
  then show ?thesis
    using base new dl md d2doc by (intro exI [of _ ?d2]) (simp add: markModified_def)
qed

text \<open>
  C2. For a document whose overlay has the shape of the data model and a marked field,
  writing a value to the field while the active language L differs from the default
  language succeeds, stores the value in \<^verbatim>\<open>_i18n[L][field]\<close> and marks \<^verbatim>\<open>_i18n\<close> as
  changed. The base slot then holds the written value if the document is new and the
  slot was empty, and its previous value otherwise; the accessor returns that same
  value, that is the default-language value, or the written value exactly in the
  new-and-empty case.
\<close>

theorem C2_write_non_default:
  assumes "is_document d"
    and "getLanguage opts d \<noteq> defaultLanguage opts"
    and "overlay_ok (rawGet d ''_i18n'')"
    and "base_field f"
  shows "\<exists>r d'. write_field opts f d x = Inr (r, d') \<and>
           overlay_entry d' (getLanguage opts d) f = x \<and>
           ''_i18n'' \<in> set (modified d') \<and>
           rawGet d' f = (if isNew d \<and> \<not> truthy (rawGet d f) then x else rawGet d f) \<and>
           r = (if isNew d \<and> \<not> truthy (rawGet d f) then x else rawGet d f)"
proof -
  let ?L = "getLanguage opts d"
  let ?r = "if isNew d \<and> \<not> truthy (rawGet d f) then x else rawGet d f"
  let ?X = "hook_overlay (rawGet d ''_i18n'') ?L f x"
  from field_set_document [OF assms, of x] obtain d1 where
    fs: "field_set opts f d x = Inr (?r, d1)"
    and r1: "raw d1 = set_key (raw d) ''_i18n'' ?X"
    and m1: "modified d1 = modified d @ [''_i18n'']"
    by blast
  let ?d' = "d1\<lparr>raw := put_create (split_path f) ?r (raw d1)\<rparr>"
  have wf: "write_field opts f d x = Inr (?r, ?d')"
    by (simp add: write_field_def fs)
  have ne: "split_path f \<noteq> []" by (simp add: split_path_def)
  have hd: "hd (split_path f) \<noteq> ''_i18n''" using assms(4) by (simp add: base_field_def)
  have ro: "is_obj (raw d)" using assms(1) by (simp add: is_document_def)
  have "jsprop (raw ?d') ''_i18n'' = jsprop (raw d1) ''_i18n''"
    using ne hd by (simp add: jsprop_put_create_other)
  also have "\<dots> = ?X" using ro by (simp add: r1 jsprop_set_key)
  finally have top: "jsprop (raw ?d') ''_i18n'' = ?X" .
  note X = hook_overlay_entry [OF assms(3), of ?L f x]
  have entry: "overlay_entry ?d' ?L f = x"
    unfolding overlay_entry_def
    using top X by (simp add: is_obj_truthy Let_def del: truthy.simps)
  have slot: "rawGet ?d' f = ?r"
    using ne by (simp add: rawGet_def walk_put_create)
  have "''_i18n'' \<in> set (modified ?d')" by (simp add: m1)
  with wf entry slot show ?thesis by blast
qed


lemma ex_doc_facts:
  "is_document ex_doc" "getLanguage ex_opts ex_doc = ''fr''" "defaultLanguage ex_opts = ''en''"
  "rawGet ex_doc ''_i18n'' = Undefined" "rawGet ex_doc ''title'' = Str ''Hello''"
  "base_field ''title''" "isNew ex_doc = False"
  by (simp_all add: ex_doc_def ex_opts_def is_document_def getLanguage_def str_or_def rawGet_def
      split_path_def jsprop_def base_field_def)

theorem C2_write_non_default_witness:
  "(\<exists>r d'. write_field ex_opts ''title'' ex_doc (Str ''Salut'') = Inr (r, d') \<and>
      overlay_entry d' ''fr'' ''title'' = Str ''Salut'' \<and> ''_i18n'' \<in> set (modified d') \<and>
      rawGet d' ''title'' = Str ''Hello'' \<and> r = Str ''Hello'') \<and>
   (\<exists>r d'. write_field ex_opts ''title'' (ex_doc\<lparr>raw := Obj [], isNew := True\<rparr>) (Str ''Salut'') = Inr (r, d') \<and>
      overlay_entry d' ''fr'' ''title'' = Str ''Salut'' \<and> ''_i18n'' \<in> set (modified d') \<and>
      rawGet d' ''title'' = Str ''Salut'' \<and> r = Str ''Salut'')"
proof -
  let ?n = "ex_doc\<lparr>raw := Obj [], isNew := True\<rparr>"
  have a: "is_document ex_doc" and b: "getLanguage ex_opts ex_doc \<noteq> defaultLanguage ex_opts"
    and c: "overlay_ok (rawGet ex_doc ''_i18n'')" and e: "base_field ''title''"
    by (simp_all add: ex_doc_facts overlay_ok_def)
  have a': "is_document ?n" and b': "getLanguage ex_opts ?n \<noteq> defaultLanguage ex_opts"
    and c': "overlay_ok (rawGet ?n ''_i18n'')"
    and n: "getLanguage ex_opts ?n = ''fr''" "isNew ?n" "rawGet ?n ''title'' = Undefined"
    by (simp_all add: ex_doc_def ex_opts_def is_document_def getLanguage_def str_or_def rawGet_def
      split_path_def jsprop_def overlay_ok_def)
  from C2_write_non_default [OF a b c e, of "Str ''Salut''"]
  have 1: "\<exists>r d'. write_field ex_opts ''title'' ex_doc (Str ''Salut'') = Inr (r, d') \<and>
      overlay_entry d' ''fr'' ''title'' = Str ''Salut'' \<and> ''_i18n'' \<in> set (modified d') \<and>
      rawGet d' ''title'' = Str ''Hello'' \<and> r = Str ''Hello''"
    by (simp add: ex_doc_facts)
  from C2_write_non_default [OF a' b' c' e, of "Str ''Salut''"]
  have 2: "\<exists>r d'. write_field ex_opts ''title'' ?n (Str ''Salut'') = Inr (r, d') \<and>
      overlay_entry d' ''fr'' ''title'' = Str ''Salut'' \<and> ''_i18n'' \<in> set (modified d') \<and>
      rawGet d' ''title'' = Str ''Salut'' \<and> r = Str ''Salut''"
    by (simp add: n)
  from 1 2 show ?thesis by simp
qed

section \<open>Facts of the running example\<close>

lemma ex_doc_fr_facts:
  "is_document ex_doc_fr" "rawGet ex_doc_fr ''title'' = Str ''Hello''"
  "overlay_at ex_doc_fr ''fr'' ''title'' = Str ''Bonjour''"
  "overlay_at ex_doc_fr ''de'' ''title'' = Undefined"
  "overlay_path ''de'' ''title'' = ''_i18n.de.title''"
  "CHR ''.'' \<notin> set ''title''"
  by (simp_all add: ex_doc_fr_def ex_doc_def is_document_def rawGet_def overlay_at_def
      overlay_path_def split_path_def jsprop_def)

section \<open>The aggregate view\<close>

lemma keys_set_key:
  "is_obj v \<Longrightarrow> set (object_keys (set_key v k x)) = insert k (set (object_keys v))"
  by (cases v) (simp_all add: is_obj_def set_key_def object_keys_def dom_update)

lemma or_else_idem [simp]: "or_else (or_else x y) y = or_else x y"
  by (simp add: or_else_def)

lemma jsprop_or_else_obj: "obj_or_empty x \<Longrightarrow> jsprop (or_else x (Obj [])) k = jsprop x k"
  by (cases x) (simp_all add: obj_or_empty_def or_else_def jsprop_def)

lemma keys_or_else_obj: "obj_or_empty x \<Longrightarrow> object_keys (or_else x (Obj [])) = object_keys x"
  by (cases x) (simp_all add: obj_or_empty_def or_else_def object_keys_def)

lemma obj_or_empty_obj: "is_obj v \<Longrightarrow> obj_or_empty v"
  by (cases v) (simp_all add: is_obj_def obj_or_empty_def)

lemma entries_ok_set_key:
  "entries_ok v \<Longrightarrow> is_obj x \<Longrightarrow> entries_ok (set_key v k x)"
  by (simp add: entries_ok_def jsprop_set_key obj_or_empty_obj)

lemma lang_body:
  assumes "entries_ok v"
  shows "\<exists>v2. and_then (get_prop v L) (\<lambda>cur.
           and_then (set_prop v L (or_else cur (Obj []))) (\<lambda>v1.
           and_then (get_prop v1 L) (\<lambda>inner.
           and_then (get_prop inner f) (\<lambda>old.
           set_prop2 v1 L f (or_else old Null))))) = Inr v2 \<and>
         entries_ok v2 \<and> is_obj (jsprop v2 L) \<and>
         (\<forall>L'. L' \<noteq> L \<longrightarrow> jsprop v2 L' = jsprop v L') \<and>
         (\<forall>f'. jsprop (jsprop v2 L) f' =
               (if f' = f then or_else (jsprop (jsprop v L) f) Null else jsprop (jsprop v L) f')) \<and>
         set (object_keys (jsprop v2 L)) = insert f (set (object_keys (jsprop v L)))"
proof -
  let ?s = "or_else (jsprop v L) (Obj [])"
  let ?v1 = "set_key v L ?s"
  let ?s' = "set_key ?s f (or_else (jsprop ?s f) Null)"
  let ?v2 = "set_key ?v1 L ?s'"
  have ov: "is_obj v" and oe: "obj_or_empty (jsprop v L)"
    using assms by (simp_all add: entries_ok_def)
  have os: "is_obj ?s" using oe by (rule or_else_obj)
  have o1: "is_obj ?v1" using ov by simp
  have p1: "jsprop ?v1 L = ?s" using ov by (simp add: jsprop_set_key)
  have run: "and_then (get_prop v L) (\<lambda>cur.
           and_then (set_prop v L (or_else cur (Obj []))) (\<lambda>v1.
           and_then (get_prop v1 L) (\<lambda>inner.
           and_then (get_prop inner f) (\<lambda>old.
           set_prop2 v1 L f (or_else old Null))))) = Inr ?v2"
    using ov os o1 p1
    by (simp add: get_prop_truthy is_obj_truthy set_prop_obj set_prop2_obj del: set_key_twice)
  have e2: "entries_ok ?v2"
    using assms os by (simp add: entries_ok_set_key del: set_key_twice)
  have p2: "jsprop ?v2 L = ?s'" using o1 by (simp add: jsprop_set_key del: set_key_twice)
  have other: "\<forall>L'. L' \<noteq> L \<longrightarrow> jsprop ?v2 L' = jsprop v L'"
    by (simp add: jsprop_set_key_other)
  have vals: "\<forall>f'. jsprop (jsprop ?v2 L) f' =
               (if f' = f then or_else (jsprop (jsprop v L) f) Null else jsprop (jsprop v L) f')"
  proof
    fix f'
    have "jsprop (jsprop ?v2 L) f' = jsprop ?s' f'" by (simp only: p2)
    also have "\<dots> = (if f' = f then or_else (jsprop ?s f) Null else jsprop ?s f')"
      using os by (simp only: jsprop_set_key)
    also have "\<dots> = (if f' = f then or_else (jsprop (jsprop v L) f) Null else jsprop (jsprop v L) f')"
      using oe by (simp only: jsprop_or_else_obj)
    finally show "jsprop (jsprop ?v2 L) f' =
               (if f' = f then or_else (jsprop (jsprop v L) f) Null else jsprop (jsprop v L) f')" .
  qed
  have keys: "set (object_keys (jsprop ?v2 L)) = insert f (set (object_keys (jsprop v L)))"
  proof -
    have "set (object_keys (jsprop ?v2 L)) = set (object_keys ?s')" by (simp only: p2)
    also have "\<dots> = insert f (set (object_keys ?s))" using os by (simp only: keys_set_key)
    also have "\<dots> = insert f (set (object_keys (jsprop v L)))"
      using oe by (simp only: keys_or_else_obj)
    finally show ?thesis .
  qed
  have "is_obj (jsprop ?v2 L)" using os by (simp only: p2 is_obj_set_key)
  with run e2 other vals keys show ?thesis by blast
qed

lemma each_lang_spec:
  assumes "entries_ok v"
  shows "\<exists>r. each_lang f Ls v = Inr r \<and> entries_ok r \<and>
           (\<forall>L. L \<notin> set Ls \<longrightarrow> jsprop r L = jsprop v L) \<and>
           (\<forall>L. L \<in> set Ls \<longrightarrow> is_obj (jsprop r L)) \<and>
           (\<forall>L f'. jsprop (jsprop r L) f' =
               (if L \<in> set Ls \<and> f' = f then or_else (jsprop (jsprop v L) f) Null
                else jsprop (jsprop v L) f')) \<and>
           (\<forall>L. set (object_keys (jsprop r L)) =
               (if L \<in> set Ls then insert f (set (object_keys (jsprop v L)))
                else set (object_keys (jsprop v L))))"
  using assms
proof (induction Ls arbitrary: v)
  case Nil
  then show ?case by simp
next
  case (Cons L0 Ls)
  from lang_body [OF Cons.prems, of L0 f] obtain v2 where
    run: "and_then (get_prop v L0) (\<lambda>cur.
           and_then (set_prop v L0 (or_else cur (Obj []))) (\<lambda>v1.
           and_then (get_prop v1 L0) (\<lambda>inner.
           and_then (get_prop inner f) (\<lambda>old.
           set_prop2 v1 L0 f (or_else old Null))))) = Inr v2"
    and ok2: "entries_ok v2" and o2: "is_obj (jsprop v2 L0)"
    and other2: "\<And>L'. L' \<noteq> L0 \<Longrightarrow> jsprop v2 L' = jsprop v L'"
    and vals2: "\<And>f'. jsprop (jsprop v2 L0) f' =
               (if f' = f then or_else (jsprop (jsprop v L0) f) Null else jsprop (jsprop v L0) f')"
    and keys2: "set (object_keys (jsprop v2 L0)) = insert f (set (object_keys (jsprop v L0)))"
    by blast
  from Cons.IH [OF ok2] obtain r where
    rr: "each_lang f Ls v2 = Inr r" and okr: "entries_ok r"
    and frame: "\<And>L. L \<notin> set Ls \<Longrightarrow> jsprop r L = jsprop v2 L"
    and objs: "\<And>L. L \<in> set Ls \<Longrightarrow> is_obj (jsprop r L)"
    and vals: "\<And>L f'. jsprop (jsprop r L) f' =
               (if L \<in> set Ls \<and> f' = f then or_else (jsprop (jsprop v2 L) f) Null
                else jsprop (jsprop v2 L) f')"
    and keys: "\<And>L. set (object_keys (jsprop r L)) =
               (if L \<in> set Ls then insert f (set (object_keys (jsprop v2 L)))
                else set (object_keys (jsprop v2 L)))"
    by blast
  have 1: "each_lang f (L0 # Ls) v = Inr r" by (simp add: run rr)
  have 2: "\<forall>L. L \<notin> set (L0 # Ls) \<longrightarrow> jsprop r L = jsprop v L"
    using frame other2 by simp
  have 3: "\<forall>L. L \<in> set (L0 # Ls) \<longrightarrow> is_obj (jsprop r L)"
    using objs frame o2 by (metis set_ConsD)
  have v2E: "\<And>L f'. jsprop (jsprop v2 L) f' =
      (if L = L0 \<and> f' = f then or_else (jsprop (jsprop v L) f) Null else jsprop (jsprop v L) f')"
    using vals2 other2 by metis
  have 4: "\<forall>L f'. jsprop (jsprop r L) f' =
               (if L \<in> set (L0 # Ls) \<and> f' = f then or_else (jsprop (jsprop v L) f) Null
                else jsprop (jsprop v L) f')"
    by (simp add: vals v2E)
  have v2K: "\<And>L. set (object_keys (jsprop v2 L)) =
      (if L = L0 then insert f (set (object_keys (jsprop v L))) else set (object_keys (jsprop v L)))"
    using keys2 other2 by simp
  have 5: "\<forall>L. set (object_keys (jsprop r L)) =
               (if L \<in> set (L0 # Ls) then insert f (set (object_keys (jsprop v L)))
                else set (object_keys (jsprop v L)))"
    by (simp add: keys v2K)
  from 1 okr 2 3 4 5 show ?case by blast
qed


lemma rawGet_write_back:
  assumes "base_field f"
  shows "rawGet (write_back d org x) f = rawGet d f"
proof (cases org)
  case From_raw
  have "split_path f \<noteq> []" by (simp add: split_path_def)
  then show ?thesis
    using assms From_raw
    by (simp add: write_back_def rawGet_def base_field_def walk_set_key_other)
qed (simp_all add: write_back_def rawGet_def)

lemma field_body:
  assumes doc: "is_document d" and bf: "base_field f"
    and ok: "entries_ok v" and dflt: "is_obj (jsprop v (defaultLanguage opts))"
  shows "\<exists>v2. and_then (each_lang f (languages opts) v) (\<lambda>v1.
           and_then (getPathValue (write_back d org v1) f) (\<lambda>b.
           set_prop2 v1 (defaultLanguage opts) f b)) = Inr v2 \<and>
         entries_ok v2 \<and> is_obj (jsprop v2 (defaultLanguage opts)) \<and>
         (\<forall>L. L \<in> set (languages opts) \<longrightarrow> is_obj (jsprop v2 L)) \<and>
         (\<forall>L. L \<noteq> defaultLanguage opts \<and> L \<notin> set (languages opts) \<longrightarrow> jsprop v2 L = jsprop v L) \<and>
         (\<forall>L f'. jsprop (jsprop v2 L) f' =
            (if f' = f then
               (if L = defaultLanguage opts then rawGet d f
                else if L \<in> set (languages opts) then or_else (jsprop (jsprop v L) f) Null
                else jsprop (jsprop v L) f)
             else jsprop (jsprop v L) f')) \<and>
         (\<forall>L. set (object_keys (jsprop v2 L)) =
            (if L = defaultLanguage opts \<or> L \<in> set (languages opts)
             then insert f (set (object_keys (jsprop v L)))
             else set (object_keys (jsprop v L))))"
proof -
  let ?D = "defaultLanguage opts"
  let ?Ls = "languages opts"
  from each_lang_spec [OF ok, of f ?Ls] obtain v1 where
    run1: "each_lang f ?Ls v = Inr v1" and ok1: "entries_ok v1"
    and frame1: "\<And>L. L \<notin> set ?Ls \<Longrightarrow> jsprop v1 L = jsprop v L"
    and objs1: "\<And>L. L \<in> set ?Ls \<Longrightarrow> is_obj (jsprop v1 L)"
    and vals1: "\<And>L f'. jsprop (jsprop v1 L) f' =
               (if L \<in> set ?Ls \<and> f' = f then or_else (jsprop (jsprop v L) f) Null
                else jsprop (jsprop v L) f')"
    and keys1: "\<And>L. set (object_keys (jsprop v1 L)) =
               (if L \<in> set ?Ls then insert f (set (object_keys (jsprop v L)))
                else set (object_keys (jsprop v L)))"
    by blast
  have o1: "is_obj v1" using ok1 by (simp add: entries_ok_def)
  have d1: "is_obj (jsprop v1 ?D)"
    using objs1 [of ?D] frame1 [of ?D] dflt by (cases "?D \<in> set ?Ls") simp_all
  let ?b = "rawGet d f"
  let ?inner = "set_key (jsprop v1 ?D) f ?b"
  let ?v2 = "set_key v1 ?D ?inner"
  have rd: "getPathValue (write_back d org v1) f = Inr ?b"
    using doc bf by (simp add: getPathValue_document is_document_write_back rawGet_write_back)
  have run: "and_then (each_lang f ?Ls v) (\<lambda>v1.
           and_then (getPathValue (write_back d org v1) f) (\<lambda>b.
           set_prop2 v1 ?D f b)) = Inr ?v2"
    using o1 d1 by (simp add: run1 rd set_prop2_obj)
  have ok2: "entries_ok ?v2" using ok1 d1 by (simp add: entries_ok_set_key)
  have pD: "jsprop ?v2 ?D = ?inner" using o1 by (simp add: jsprop_set_key)
  have pO: "\<And>L. L \<noteq> ?D \<Longrightarrow> jsprop ?v2 L = jsprop v1 L"
    by (simp add: jsprop_set_key_other)
  have oD: "is_obj (jsprop ?v2 ?D)" using d1 by (simp add: pD)
  have objs: "\<forall>L. L \<in> set ?Ls \<longrightarrow> is_obj (jsprop ?v2 L)"
    using objs1 pO oD by metis
  have frame: "\<forall>L. L \<noteq> ?D \<and> L \<notin> set ?Ls \<longrightarrow> jsprop ?v2 L = jsprop v L"
    using pO frame1 by simp
  have vals: "\<forall>L f'. jsprop (jsprop ?v2 L) f' =
            (if f' = f then
               (if L = ?D then ?b
                else if L \<in> set ?Ls then or_else (jsprop (jsprop v L) f) Null
                else jsprop (jsprop v L) f)
             else jsprop (jsprop v L) f')"
  proof (intro allI)
    fix L f'
    show "jsprop (jsprop ?v2 L) f' =
            (if f' = f then
               (if L = ?D then ?b
                else if L \<in> set ?Ls then or_else (jsprop (jsprop v L) f) Null
                else jsprop (jsprop v L) f)
             else jsprop (jsprop v L) f')"
    proof (cases "L = ?D")
      case True
      have "jsprop (jsprop ?v2 L) f' = (if f' = f then ?b else jsprop (jsprop v1 ?D) f')"
        using d1 by (simp only: True pD jsprop_set_key)
      then show ?thesis using True by (simp add: vals1)
    next
      case False
      then show ?thesis by (simp add: pO vals1)
    qed
  qed
  have keys: "\<forall>L. set (object_keys (jsprop ?v2 L)) =
            (if L = ?D \<or> L \<in> set ?Ls
             then insert f (set (object_keys (jsprop v L)))
             else set (object_keys (jsprop v L)))"
  proof
    fix L
    show "set (object_keys (jsprop ?v2 L)) =
            (if L = ?D \<or> L \<in> set ?Ls
             then insert f (set (object_keys (jsprop v L)))
             else set (object_keys (jsprop v L)))"
    proof (cases "L = ?D")
      case True
      have "set (object_keys (jsprop ?v2 L)) = insert f (set (object_keys (jsprop v1 ?D)))"
        using d1 by (simp only: True pD keys_set_key)
      then show ?thesis using True by (simp add: keys1)
    next
      case False
      then show ?thesis by (simp add: pO keys1)
    qed
  qed
  from run ok2 oD objs frame vals keys show ?thesis by blast
qed

lemma each_field_spec:
  assumes doc: "is_document d" and bf: "\<forall>f \<in> set Fs. base_field f"
    and ok: "entries_ok v" and dflt: "is_obj (jsprop v (defaultLanguage opts))"
  shows "\<exists>res. each_field opts org d Fs v = Inr res \<and>
         entries_ok res \<and> is_obj (jsprop res (defaultLanguage opts)) \<and>
         (Fs \<noteq> [] \<longrightarrow> (\<forall>L. L \<in> set (languages opts) \<longrightarrow> is_obj (jsprop res L))) \<and>
         (\<forall>L. L \<noteq> defaultLanguage opts \<and> L \<notin> set (languages opts) \<longrightarrow> jsprop res L = jsprop v L) \<and>
         (\<forall>L f. jsprop (jsprop res L) f =
            (if f \<in> set Fs then
               (if L = defaultLanguage opts then rawGet d f
                else if L \<in> set (languages opts) then or_else (jsprop (jsprop v L) f) Null
                else jsprop (jsprop v L) f)
             else jsprop (jsprop v L) f)) \<and>
         (\<forall>L. set (object_keys (jsprop res L)) =
            (if L = defaultLanguage opts \<or> L \<in> set (languages opts)
             then set Fs \<union> set (object_keys (jsprop v L))
             else set (object_keys (jsprop v L))))"
  using bf ok dflt
proof (induction Fs arbitrary: v)
  case Nil
  then show ?case by simp
next
  case (Cons f0 Fs)
  let ?D = "defaultLanguage opts"
  let ?Ls = "languages opts"
  have bf0: "base_field f0" and bfs: "\<forall>f \<in> set Fs. base_field f"
    using Cons.prems(1) by simp_all
  from field_body [OF doc bf0 Cons.prems(2) Cons.prems(3), of org] obtain v2 where
    run2: "and_then (each_lang f0 ?Ls v) (\<lambda>v1.
           and_then (getPathValue (write_back d org v1) f0) (\<lambda>b.
           set_prop2 v1 ?D f0 b)) = Inr v2"
    and ok2: "entries_ok v2" and oD2: "is_obj (jsprop v2 ?D)"
    and objs2: "\<And>L. L \<in> set ?Ls \<Longrightarrow> is_obj (jsprop v2 L)"
    and frame2: "\<And>L. L \<noteq> ?D \<and> L \<notin> set ?Ls \<Longrightarrow> jsprop v2 L = jsprop v L"
    and vals2: "\<And>L f'. jsprop (jsprop v2 L) f' =
            (if f' = f0 then
               (if L = ?D then rawGet d f0
                else if L \<in> set ?Ls then or_else (jsprop (jsprop v L) f0) Null
                else jsprop (jsprop v L) f0)
             else jsprop (jsprop v L) f')"
    and keys2: "\<And>L. set (object_keys (jsprop v2 L)) =
            (if L = ?D \<or> L \<in> set ?Ls
             then insert f0 (set (object_keys (jsprop v L)))
             else set (object_keys (jsprop v L)))"
    by blast
  from Cons.IH [OF bfs ok2 oD2] obtain res where
    run: "each_field opts org d Fs v2 = Inr res"
    and okr: "entries_ok res" and oDr: "is_obj (jsprop res ?D)"
    and objs: "\<And>L. Fs \<noteq> [] \<Longrightarrow> L \<in> set ?Ls \<Longrightarrow> is_obj (jsprop res L)"
    and frame: "\<And>L. L \<noteq> ?D \<and> L \<notin> set ?Ls \<Longrightarrow> jsprop res L = jsprop v2 L"
    and vals: "\<And>L f. jsprop (jsprop res L) f =
            (if f \<in> set Fs then
               (if L = ?D then rawGet d f
                else if L \<in> set ?Ls then or_else (jsprop (jsprop v2 L) f) Null
                else jsprop (jsprop v2 L) f)
             else jsprop (jsprop v2 L) f)"
    and keys: "\<And>L. set (object_keys (jsprop res L)) =
            (if L = ?D \<or> L \<in> set ?Ls
             then set Fs \<union> set (object_keys (jsprop v2 L))
             else set (object_keys (jsprop v2 L)))"
    by blast
  have 1: "each_field opts org d (f0 # Fs) v = Inr res" by (simp add: run2 run)
  have 2: "\<forall>L. L \<in> set ?Ls \<longrightarrow> is_obj (jsprop res L)"
  proof (intro allI impI)
    fix L assume L: "L \<in> set ?Ls"
    show "is_obj (jsprop res L)"
    proof (cases "Fs = []")
      case True
      with run have "res = v2" by simp
      with objs2 [OF L] show ?thesis by simp
    next
      case False
      from objs [OF False L] show ?thesis .
    qed
  qed
  have 3: "\<forall>L. L \<noteq> ?D \<and> L \<notin> set ?Ls \<longrightarrow> jsprop res L = jsprop v L"
    using frame frame2 by simp
  have 4: "\<forall>L f. jsprop (jsprop res L) f =
            (if f \<in> set (f0 # Fs) then
               (if L = ?D then rawGet d f
                else if L \<in> set ?Ls then or_else (jsprop (jsprop v L) f) Null
                else jsprop (jsprop v L) f)
             else jsprop (jsprop v L) f)"
    by (simp add: vals vals2)
  have 5: "\<forall>L. set (object_keys (jsprop res L)) =
            (if L = ?D \<or> L \<in> set ?Ls
             then set (f0 # Fs) \<union> set (object_keys (jsprop v L))
             else set (object_keys (jsprop v L)))"
    by (auto simp: keys keys2)
  from 1 okr oDr 2 3 4 5 show ?case by blast
qed


lemma or_else_overlay_entry:
  assumes "overlay_ok (rawGet d ''_i18n'')"
  shows "or_else (jsprop (jsprop (or_else (rawGet d ''_i18n'') (Obj [])) L) f) Null =
         or_else (overlay_entry d L f) Null"
proof -
  let ?g = "rawGet d ''_i18n''"
  have g: "jsprop (raw d) ''_i18n'' = ?g" by (simp add: rawGet_i18n)
  show ?thesis
  proof (cases "truthy ?g")
    case False
    then have "overlay_entry d L f = ?g"
      by (simp add: overlay_entry_def g Let_def)
    with False show ?thesis by (simp add: or_else_def jsprop_def)
  next
    case True
    note tg = this
    have oe: "obj_or_empty (jsprop ?g L)" using assms by (rule overlay_ok_entry)
    show ?thesis
    proof (cases "truthy (jsprop ?g L)")
      case False
      then have 1: "overlay_entry d L f = jsprop ?g L"
        using tg by (simp add: overlay_entry_def g Let_def)
      have "jsprop (jsprop ?g L) f = Undefined"
        using oe False by (cases "jsprop ?g L") (simp_all add: obj_or_empty_def jsprop_def)
      with 1 False tg show ?thesis by (simp add: or_else_def)
    next
      case True
      then have "overlay_entry d L f = jsprop (jsprop ?g L) f"
        using tg by (simp add: overlay_entry_def g Let_def)
      with tg show ?thesis by (simp add: or_else_def)
    qed
  qed
qed

lemma entries_ok_overlay: "overlay_ok g \<Longrightarrow> entries_ok (or_else g (Obj []))"
  by (simp add: entries_ok_def overlay_ok_or_else)

lemma key_of_obj: "is_obj (jsprop v k) \<Longrightarrow> k \<in> set (object_keys v)"
  by (cases v) (auto simp: jsprop_def object_keys_def is_obj_def dest: map_of_SomeD
      split: option.splits intro: rev_image_eqI)

lemma i18n_get_spec:
  assumes doc: "is_document d" and ok: "overlay_ok (rawGet d ''_i18n'')"
    and bf: "\<forall>f \<in> set Fs. base_field f"
  shows "\<exists>res. i18n_get opts Fs d =
            Inr (res, if truthy (rawGet d ''_i18n'')
                      then d\<lparr>raw := set_key (raw d) ''_i18n'' res\<rparr> else d) \<and>
          is_obj res \<and> is_obj (jsprop res (defaultLanguage opts)) \<and>
          (Fs \<noteq> [] \<longrightarrow> (\<forall>L. L \<in> set (languages opts) \<longrightarrow> is_obj (jsprop res L))) \<and>
          (\<forall>L f. L \<in> set (languages opts) \<and> f \<in> set Fs \<longrightarrow>
                 f \<in> set (object_keys (jsprop res L))) \<and>
          set (object_keys (jsprop res (defaultLanguage opts))) = set Fs \<and>
          (\<forall>f. f \<in> set Fs \<longrightarrow> jsprop (jsprop res (defaultLanguage opts)) f = rawGet d f) \<and>
          (\<forall>L f. L \<in> set (languages opts) \<and> L \<noteq> defaultLanguage opts \<and> f \<in> set Fs \<longrightarrow>
                 jsprop (jsprop res L) f = or_else (overlay_entry d L f) Null)"
proof -
  let ?D = "defaultLanguage opts"
  let ?Ls = "languages opts"
  let ?g = "rawGet d ''_i18n''"
  let ?gobj = "or_else ?g (Obj [])"
  let ?init = "set_key ?gobj ?D (Obj [])"
  let ?org = "i18n_origin d"
  have okg: "entries_ok ?gobj" using ok by (rule entries_ok_overlay)
  then have og: "is_obj ?gobj" by (simp add: entries_ok_def)
  have ok0: "entries_ok ?init" using okg by (simp add: entries_ok_set_key)
  have pD: "jsprop ?init ?D = Obj []" using og by (simp add: jsprop_set_key)
  have pO: "\<And>L. L \<noteq> ?D \<Longrightarrow> jsprop ?init L = jsprop ?gobj L"
    by (simp add: jsprop_set_key_other)
  have d0: "is_obj (jsprop ?init ?D)" by (simp add: pD)
  from each_field_spec [OF doc bf ok0 d0, of ?org] obtain res where
    run: "each_field opts ?org d Fs ?init = Inr res"
    and okr: "entries_ok res" and oDr: "is_obj (jsprop res ?D)"
    and objs: "\<And>L. Fs \<noteq> [] \<Longrightarrow> L \<in> set ?Ls \<Longrightarrow> is_obj (jsprop res L)"
    and vals: "\<And>L f. jsprop (jsprop res L) f =
            (if f \<in> set Fs then
               (if L = ?D then rawGet d f
                else if L \<in> set ?Ls then or_else (jsprop (jsprop ?init L) f) Null
                else jsprop (jsprop ?init L) f)
             else jsprop (jsprop ?init L) f)"
    and keys: "\<And>L. set (object_keys (jsprop res L)) =
            (if L = ?D \<or> L \<in> set ?Ls
             then set Fs \<union> set (object_keys (jsprop ?init L))
             else set (object_keys (jsprop ?init L)))"
    by blast
  have wb: "write_back d ?org res =
      (if truthy ?g then d\<lparr>raw := set_key (raw d) ''_i18n'' res\<rparr> else d)"
    by (simp add: i18n_origin_document [OF doc] write_back_def)
  have 1: "i18n_get opts Fs d =
            Inr (res, if truthy ?g then d\<lparr>raw := set_key (raw d) ''_i18n'' res\<rparr> else d)"
    using og
    by (simp add: i18n_get_def Let_def getPathValue_document [OF doc] set_prop_obj run wb)
  have 2: "is_obj res" using okr by (simp add: entries_ok_def)
  have 3: "Fs \<noteq> [] \<longrightarrow> (\<forall>L. L \<in> set ?Ls \<longrightarrow> is_obj (jsprop res L))"
    using objs by blast
  have 4: "\<forall>L f. L \<in> set ?Ls \<and> f \<in> set Fs \<longrightarrow> f \<in> set (object_keys (jsprop res L))"
    by (simp add: keys)
  have "set (object_keys (jsprop ?init ?D)) = {}" by (simp add: pD object_keys_def)
  then have 5: "set (object_keys (jsprop res ?D)) = set Fs"
    by (simp add: keys)
  have 6: "\<forall>f. f \<in> set Fs \<longrightarrow> jsprop (jsprop res ?D) f = rawGet d f"
    by (simp add: vals)
  have 7: "\<forall>L f. L \<in> set ?Ls \<and> L \<noteq> ?D \<and> f \<in> set Fs \<longrightarrow>
                 jsprop (jsprop res L) f = or_else (overlay_entry d L f) Null"
    by (simp add: vals pO or_else_overlay_entry [OF ok])
  from 1 2 oDr 3 4 5 6 7 show ?thesis by blast
qed

text \<open>
  C5. On a document whose overlay has the shape of the data model, for any configured
  languages and any marked fields, the aggregate getter returns a map that has every
  pair of a configured language and a marked field; for a non-default language the
  value is the overlay entry, or \<^verbatim>\<open>null\<close> when there is none; and the sub-map of the
  default language has exactly the marked fields as keys, each with the current raw
  value of its base field.
\<close>

theorem C5_aggregate_complete:
  assumes "is_document d" and "overlay_ok (rawGet d ''_i18n'')"
    and "\<forall>f \<in> set Fs. base_field f"
  shows "\<exists>res d'. i18n_get opts Fs d = Inr (res, d') \<and>
           (\<forall>L \<in> set (languages opts). \<forall>f \<in> set Fs.
              f \<in> set (object_keys (jsprop res L)) \<and>
              (L \<noteq> defaultLanguage opts \<longrightarrow>
                 jsprop (jsprop res L) f = or_else (overlay_entry d L f) Null)) \<and>
           set (object_keys (jsprop res (defaultLanguage opts))) = set Fs \<and>
           (\<forall>f \<in> set Fs. jsprop (jsprop res (defaultLanguage opts)) f = rawGet d f)"
proof -
  from i18n_get_spec [OF assms, of opts] obtain res d' where
    run: "i18n_get opts Fs d = Inr (res, d')"
    and keys: "\<And>L f. L \<in> set (languages opts) \<and> f \<in> set Fs \<Longrightarrow>
                 f \<in> set (object_keys (jsprop res L))"
    and keysD: "set (object_keys (jsprop res (defaultLanguage opts))) = set Fs"
    and valsD: "\<And>f. f \<in> set Fs \<Longrightarrow> jsprop (jsprop res (defaultLanguage opts)) f = rawGet d f"
    and vals: "\<And>L f. L \<in> set (languages opts) \<and> L \<noteq> defaultLanguage opts \<and> f \<in> set Fs \<Longrightarrow>
                 jsprop (jsprop res L) f = or_else (overlay_entry d L f) Null"
    by blast
  have "\<forall>L \<in> set (languages opts). \<forall>f \<in> set Fs.
              f \<in> set (object_keys (jsprop res L)) \<and>
              (L \<noteq> defaultLanguage opts \<longrightarrow>
                 jsprop (jsprop res L) f = or_else (overlay_entry d L f) Null)"
    using keys vals by simp
  moreover have "\<forall>f \<in> set Fs. jsprop (jsprop res (defaultLanguage opts)) f = rawGet d f"
    using valsD by simp
  ultimately show ?thesis using run keysD by (intro exI conjI)
qed

lemma ex_overlay_facts:
  "overlay_ok (rawGet ex_doc_fr ''_i18n'')" "overlay_ok (rawGet ex_doc ''_i18n'')"
  "truthy (rawGet ex_doc_fr ''_i18n'')" "\<not> truthy (rawGet ex_doc ''_i18n'')"
  "overlay_entry ex_doc_fr ''fr'' ''title'' = Str ''Bonjour''"
  "overlay_entry ex_doc_fr ''de'' ''title'' = Undefined"
  "languages ex_opts = [''en'', ''fr'', ''de'']"
  by (simp_all add: ex_doc_fr_def ex_doc_def ex_opts_def rawGet_def split_path_def jsprop_def
      overlay_ok_def obj_or_empty_def overlay_entry_def)

theorem C5_aggregate_complete_witness:
  "\<exists>res d'. i18n_get ex_opts [''title''] ex_doc_fr = Inr (res, d') \<and>
      ''title'' \<in> set (object_keys (jsprop res ''en'')) \<and>
      ''title'' \<in> set (object_keys (jsprop res ''fr'')) \<and>
      ''title'' \<in> set (object_keys (jsprop res ''de'')) \<and>
      jsprop (jsprop res ''fr'') ''title'' = Str ''Bonjour'' \<and>
      jsprop (jsprop res ''de'') ''title'' = Null \<and>
      set (object_keys (jsprop res ''en'')) = {''title''} \<and>
      jsprop (jsprop res ''en'') ''title'' = Str ''Hello''"
proof -
  have bf: "\<forall>f \<in> set [''title'']. base_field f" by (simp add: ex_doc_facts)
  from C5_aggregate_complete [OF ex_doc_fr_facts(1) ex_overlay_facts(1) bf, of ex_opts]
  obtain res d' where
    run: "i18n_get ex_opts [''title''] ex_doc_fr = Inr (res, d')"
    and pairs: "\<forall>L \<in> set (languages ex_opts). \<forall>f \<in> set [''title''].
              f \<in> set (object_keys (jsprop res L)) \<and>
              (L \<noteq> defaultLanguage ex_opts \<longrightarrow>
                 jsprop (jsprop res L) f = or_else (overlay_entry ex_doc_fr L f) Null)"
    and keysD: "set (object_keys (jsprop res (defaultLanguage ex_opts))) = set [''title'']"
    and valsD: "\<forall>f \<in> set [''title'']. jsprop (jsprop res (defaultLanguage ex_opts)) f = rawGet ex_doc_fr f"
    by blast
  from pairs have
    "''title'' \<in> set (object_keys (jsprop res ''en''))"
    "''title'' \<in> set (object_keys (jsprop res ''fr''))"
    "''title'' \<in> set (object_keys (jsprop res ''de''))"
    "jsprop (jsprop res ''fr'') ''title'' = Str ''Bonjour''"
    "jsprop (jsprop res ''de'') ''title'' = Null"
    by (simp_all add: ex_overlay_facts ex_doc_facts or_else_def)
  moreover from keysD valsD have
    "set (object_keys (jsprop res ''en'')) = {''title''}"
    "jsprop (jsprop res ''en'') ''title'' = Str ''Hello''"
    by (simp_all add: ex_doc_facts ex_doc_fr_facts)
  ultimately show ?thesis using run by (intro exI conjI)
qed

text \<open>
  C9 (as stated, refuted). A document that has no stored overlay is left as it was by a
  read of the aggregate view: the getter fills a new object, which it returns and does
  not store.
\<close>

theorem C9_counterexample:
  "rawGet ex_doc ''_i18n'' = Undefined \<and>
   (case i18n_get ex_opts [''title''] ex_doc of
      Inl e \<Rightarrow> False
    | Inr (res, d') \<Rightarrow> d' = ex_doc \<and> rawGet d' ''_i18n'' = Undefined)"
  by code_simp

text \<open>
  C9 (amended). Reading the aggregate view changes the stored overlay in place when the
  document has one: after the read the stored overlay is the returned map (without the
  overlay being marked as changed); it has a sub-map for the default language whose keys
  are the marked fields, and, when at least one field is marked, an entry for every
  configured language with a key for every marked field, \<^verbatim>\<open>null\<close> where there was no
  translation. When the document has no stored overlay the read leaves it unchanged.
\<close>

theorem C9_aggregate_read_mutates:
  assumes "is_document d" and "overlay_ok (rawGet d ''_i18n'')"
    and "\<forall>f \<in> set Fs. base_field f"
  shows "\<exists>res d'. i18n_get opts Fs d = Inr (res, d') \<and>
           (\<not> truthy (rawGet d ''_i18n'') \<longrightarrow> d' = d) \<and>
           (truthy (rawGet d ''_i18n'') \<longrightarrow>
              rawGet d' ''_i18n'' = res \<and> modified d' = modified d \<and>
              defaultLanguage opts \<in> set (object_keys (rawGet d' ''_i18n'')) \<and>
              set (object_keys (jsprop (rawGet d' ''_i18n'') (defaultLanguage opts))) = set Fs \<and>
              (Fs \<noteq> [] \<longrightarrow>
                 (\<forall>L \<in> set (languages opts).
                    L \<in> set (object_keys (rawGet d' ''_i18n'')) \<and>
                    (\<forall>f \<in> set Fs.
                       f \<in> set (object_keys (jsprop (rawGet d' ''_i18n'') L)) \<and>
                       (L \<noteq> defaultLanguage opts \<and> \<not> truthy (overlay_entry d L f) \<longrightarrow>
                          jsprop (jsprop (rawGet d' ''_i18n'') L) f = Null)))))"
proof -
  let ?g = "rawGet d ''_i18n''"
  from i18n_get_spec [OF assms, of opts] obtain res where
    run: "i18n_get opts Fs d =
            Inr (res, if truthy ?g then d\<lparr>raw := set_key (raw d) ''_i18n'' res\<rparr> else d)"
    and oD: "is_obj (jsprop res (defaultLanguage opts))"
    and objs: "Fs \<noteq> [] \<longrightarrow> (\<forall>L. L \<in> set (languages opts) \<longrightarrow> is_obj (jsprop res L))"
    and keys: "\<And>L f. L \<in> set (languages opts) \<and> f \<in> set Fs \<Longrightarrow>
                 f \<in> set (object_keys (jsprop res L))"
    and keysD: "set (object_keys (jsprop res (defaultLanguage opts))) = set Fs"
    and vals: "\<And>L f. L \<in> set (languages opts) \<and> L \<noteq> defaultLanguage opts \<and> f \<in> set Fs \<Longrightarrow>
                 jsprop (jsprop res L) f = or_else (overlay_entry d L f) Null"
    by blast
  let ?d' = "if truthy ?g then d\<lparr>raw := set_key (raw d) ''_i18n'' res\<rparr> else d"
  have ro: "is_obj (raw d)" using assms(1) by (simp add: is_document_def)
  have b: "defaultLanguage opts \<in> set (object_keys res)" using oD by (rule key_of_obj)
  have c: "L \<in> set (object_keys res)" if "Fs \<noteq> []" "L \<in> set (languages opts)" for L
    using objs that by (simp add: key_of_obj)
  have e: "jsprop (jsprop res L) f = Null"
    if "L \<in> set (languages opts)" "L \<noteq> defaultLanguage opts" "f \<in> set Fs"
       "\<not> truthy (overlay_entry d L f)" for L f
    using vals [of L f] that by (simp add: or_else_def)
  have per_lang: "\<forall>L \<in> set (languages opts).
        L \<in> set (object_keys res) \<and>
        (\<forall>f \<in> set Fs.
           f \<in> set (object_keys (jsprop res L)) \<and>
           (L \<noteq> defaultLanguage opts \<and> \<not> truthy (overlay_entry d L f) \<longrightarrow>
              jsprop (jsprop res L) f = Null))"
    if "Fs \<noteq> []"
    using c [OF that] keys e by simp
  have absent: "\<not> truthy ?g \<longrightarrow> ?d' = d" by simp
  have present: "truthy ?g \<longrightarrow>
              rawGet ?d' ''_i18n'' = res \<and> modified ?d' = modified d \<and>
              defaultLanguage opts \<in> set (object_keys (rawGet ?d' ''_i18n'')) \<and>
              set (object_keys (jsprop (rawGet ?d' ''_i18n'') (defaultLanguage opts))) = set Fs \<and>
              (Fs \<noteq> [] \<longrightarrow>
                 (\<forall>L \<in> set (languages opts).
                    L \<in> set (object_keys (rawGet ?d' ''_i18n'')) \<and>
                    (\<forall>f \<in> set Fs.
                       f \<in> set (object_keys (jsprop (rawGet ?d' ''_i18n'') L)) \<and>
                       (L \<noteq> defaultLanguage opts \<and> \<not> truthy (overlay_entry d L f) \<longrightarrow>
                          jsprop (jsprop (rawGet ?d' ''_i18n'') L) f = Null))))"
  proof
    assume t: "truthy ?g"
    have st: "rawGet ?d' ''_i18n'' = res"
      using t ro by (simp add: rawGet_i18n jsprop_set_key)
    have a: "modified ?d' = modified d" by simp
    show "rawGet ?d' ''_i18n'' = res \<and> modified ?d' = modified d \<and>
              defaultLanguage opts \<in> set (object_keys (rawGet ?d' ''_i18n'')) \<and>
              set (object_keys (jsprop (rawGet ?d' ''_i18n'') (defaultLanguage opts))) = set Fs \<and>
              (Fs \<noteq> [] \<longrightarrow>
                 (\<forall>L \<in> set (languages opts).
                    L \<in> set (object_keys (rawGet ?d' ''_i18n'')) \<and>
                    (\<forall>f \<in> set Fs.
                       f \<in> set (object_keys (jsprop (rawGet ?d' ''_i18n'') L)) \<and>
                       (L \<noteq> defaultLanguage opts \<and> \<not> truthy (overlay_entry d L f) \<longrightarrow>
                          jsprop (jsprop (rawGet ?d' ''_i18n'') L) f = Null))))"
      unfolding st using a b keysD per_lang by (intro conjI impI) simp_all
  qed
  from run absent present show ?thesis by (intro exI conjI)
qed

theorem C9_aggregate_read_mutates_witness:
  "(\<exists>res d'. i18n_get ex_opts [''title''] ex_doc_fr = Inr (res, d') \<and>
      rawGet d' ''_i18n'' = res \<and> modified d' = modified ex_doc_fr \<and>
      ''en'' \<in> set (object_keys (rawGet d' ''_i18n'')) \<and>
      ''de'' \<in> set (object_keys (rawGet d' ''_i18n'')) \<and>
      ''title'' \<in> set (object_keys (jsprop (rawGet d' ''_i18n'') ''de'')) \<and>
      jsprop (jsprop (rawGet d' ''_i18n'') ''de'') ''title'' = Null) \<and>
   (\<exists>res. i18n_get ex_opts [''title''] ex_doc = Inr (res, ex_doc))"
proof -
  have bf: "\<forall>f \<in> set [''title'']. base_field f" by (simp add: ex_doc_facts)
  from C9_aggregate_read_mutates [OF ex_doc_fr_facts(1) ex_overlay_facts(1) bf, of ex_opts]
  obtain res d' where
    run: "i18n_get ex_opts [''title''] ex_doc_fr = Inr (res, d')"
    and present: "truthy (rawGet ex_doc_fr ''_i18n'') \<longrightarrow>
              rawGet d' ''_i18n'' = res \<and> modified d' = modified ex_doc_fr \<and>
              defaultLanguage ex_opts \<in> set (object_keys (rawGet d' ''_i18n'')) \<and>
              set (object_keys (jsprop (rawGet d' ''_i18n'') (defaultLanguage ex_opts))) = set [''title''] \<and>
              ([''title''] \<noteq> [] \<longrightarrow>
                 (\<forall>L \<in> set (languages ex_opts).
                    L \<in> set (object_keys (rawGet d' ''_i18n'')) \<and>
                    (\<forall>f \<in> set [''title''].
                       f \<in> set (object_keys (jsprop (rawGet d' ''_i18n'') L)) \<and>
                       (L \<noteq> defaultLanguage ex_opts \<and> \<not> truthy (overlay_entry ex_doc_fr L f) \<longrightarrow>
                          jsprop (jsprop (rawGet d' ''_i18n'') L) f = Null))))"
    by blast
  from present have
    "rawGet d' ''_i18n'' = res" "modified d' = modified ex_doc_fr"
    "''en'' \<in> set (object_keys (rawGet d' ''_i18n''))"
    "''de'' \<in> set (object_keys (rawGet d' ''_i18n''))"
    "''title'' \<in> set (object_keys (jsprop (rawGet d' ''_i18n'') ''de''))"
    "jsprop (jsprop (rawGet d' ''_i18n'') ''de'') ''title'' = Null"
    by (auto simp: ex_overlay_facts ex_doc_facts)
  with run have 1: "\<exists>res d'. i18n_get ex_opts [''title''] ex_doc_fr = Inr (res, d') \<and>
      rawGet d' ''_i18n'' = res \<and> modified d' = modified ex_doc_fr \<and>
      ''en'' \<in> set (object_keys (rawGet d' ''_i18n'')) \<and>
      ''de'' \<in> set (object_keys (rawGet d' ''_i18n'')) \<and>
      ''title'' \<in> set (object_keys (jsprop (rawGet d' ''_i18n'') ''de'')) \<and>
      jsprop (jsprop (rawGet d' ''_i18n'') ''de'') ''title'' = Null"
    by (intro exI conjI)
  from C9_aggregate_read_mutates [OF ex_doc_facts(1) ex_overlay_facts(2) bf, of ex_opts]
  obtain res2 d2 where
    run2: "i18n_get ex_opts [''title''] ex_doc = Inr (res2, d2)"
    and absent: "\<not> truthy (rawGet ex_doc ''_i18n'') \<longrightarrow> d2 = ex_doc"
    by blast
  from absent have "d2 = ex_doc" by (simp add: ex_overlay_facts)
  with run2 have 2: "\<exists>res. i18n_get ex_opts [''title''] ex_doc = Inr (res, ex_doc)" by blast
  from 1 2 show ?thesis by (rule conjI)
qed

text \<open>
  C4 (the code departs from the claim). The stored overlay of the example holds only the
  French entry. One read of the aggregate view leaves in the stored overlay an entry
  keyed by the default language \<^verbatim>\<open>en\<close>, holding the base values: the getter assigns
  \<^verbatim>\<open>value[options.defaultLanguage]\<close> on the stored object itself. The setter of the same
  view deletes that key before it stores a payload.
\<close>

theorem C4_aggregate_read_adds_default_entry:
  "defaultLanguage ex_opts = ''en'' \<and>
   object_keys (rawGet ex_doc_fr ''_i18n'') = [''fr''] \<and>
   (case i18n_get ex_opts [''title''] ex_doc_fr of
      Inl e \<Rightarrow> False
    | Inr (res, d') \<Rightarrow>
        object_keys (rawGet d' ''_i18n'') = [''fr'', ''en'', ''de''] \<and>
        jsprop (rawGet d' ''_i18n'') ''en'' = Obj [(''title'', Str ''Hello'')])"
  by code_simp

section \<open>The per-language virtuals\<close>

text \<open>
  The getter of \<^verbatim>\<open>field_lang\<close> returns the raw value of the base field for the
  default language and the overlay entry of the language otherwise, whatever the active
  language and with no fallback; the setter for the default language writes the base
  field through the raw write primitive and marks the field as changed.
\<close>

lemma virtual_get_and_default_set:
  assumes "is_document d"
  shows "(lang = defaultLanguage opts \<longrightarrow>
            virtual_get opts f lang d = Inr (rawGet d f) \<and>
            (\<exists>d'. virtual_set opts Fs f lang d x = Inr d' \<and>
                  raw d' = put (split_path f) x (raw d) \<and> f \<in> set (modified d') \<and>
                  (CHR ''.'' \<notin> set f \<longrightarrow> rawGet d' f = x))) \<and>
         (lang \<noteq> defaultLanguage opts \<longrightarrow>
            virtual_get opts f lang d = Inr (overlay_at d lang f)) \<and>
         virtual_get opts f lang (d\<lparr>docLanguage := l\<rparr>) = virtual_get opts f lang d \<and>
         virtual_get (opts\<lparr>language := l\<rparr>) f lang d = virtual_get opts f lang d"
proof -
  have ro: "is_obj (raw d)" using assms by (simp add: is_document_def)
  have get: "virtual_get opts f lang d =
      Inr (rawGet d (if lang = defaultLanguage opts then f else overlay_path lang f))"
    by (simp add: virtual_get_def getPathValue_document [OF assms])
  have "is_document (d\<lparr>docLanguage := l\<rparr>)" using assms by (simp add: is_document_def)
  then have indep: "virtual_get opts f lang (d\<lparr>docLanguage := l\<rparr>) = virtual_get opts f lang d"
    by (simp add: virtual_get_def getPathValue_document assms rawGet_def)
  have indep2: "virtual_get (opts\<lparr>language := l\<rparr>) f lang d = virtual_get opts f lang d"
    by (simp add: virtual_get_def)
  have dflt: "\<exists>d'. virtual_set opts Fs f lang d x = Inr d' \<and>
                  raw d' = put (split_path f) x (raw d) \<and> f \<in> set (modified d') \<and>
                  (CHR ''.'' \<notin> set f \<longrightarrow> rawGet d' f = x)"
    if "lang = defaultLanguage opts"
  proof -
    let ?d' = "markModified (rawSet d f x) f"
    have 1: "virtual_set opts Fs f lang d x = Inr ?d'"
      using that by (simp add: virtual_set_def setPathValue_document [OF assms])
    have 2: "raw ?d' = put (split_path f) x (raw d)" "f \<in> set (modified ?d')"
      by (simp_all add: markModified_def rawSet_def)
    have 3: "rawGet ?d' f = x" if "CHR ''.'' \<notin> set f"
    proof -
      from that have "split_path f = [f]" by (simp add: split_path_def split_on_plain)
      then show ?thesis using ro
        by (simp add: rawGet_def markModified_def rawSet_def jsprop_set_key)
    qed
    from 1 2 3 show ?thesis by blast
  qed
  show ?thesis
  proof (cases "lang = defaultLanguage opts")
    case True
    with get have "virtual_get opts f lang d = Inr (rawGet d f)" by simp
    with True dflt indep indep2 show ?thesis by blast
  next
    case False
    with get have "virtual_get opts f lang d = Inr (overlay_at d lang f)"
      by (simp add: overlay_at_def)
    with False indep indep2 show ?thesis by blast
  qed
qed

text \<open>
  C8 (the code departs from the claim). The setter of \<^verbatim>\<open>title_de\<close>, a non-default
  language, is \<^verbatim>\<open>this.set("_i18n.de.title", value)\<close>, a write below the plugin's own
  virtual \<^verbatim>\<open>_i18n\<close>. On the document without a stored overlay the write is lost: the
  document is unchanged and nothing is marked. On the document that stores the French
  entry the value arrives in the stored overlay, together with the entries the aggregate
  getter adds (the default language \<^verbatim>\<open>en\<close> among them), and nothing is marked as
  changed. The getter of \<^verbatim>\<open>title_de\<close> still finds no entry on the first document.
\<close>

theorem C8_overlay_write_through_virtual:
  "''de'' \<noteq> defaultLanguage ex_opts \<and>
   rawGet ex_doc ''_i18n'' = Undefined \<and>
   virtual_set ex_opts [''title''] ''title'' ''de'' ex_doc (Str ''Hallo'') = Inr ex_doc \<and>
   virtual_get ex_opts ''title'' ''de'' ex_doc = Inr Undefined \<and>
   (case virtual_set ex_opts [''title''] ''title'' ''de'' ex_doc_fr (Str ''Hallo'') of
      Inl e \<Rightarrow> False
    | Inr d' \<Rightarrow>
        modified d' = [] \<and>
        rawGet d' ''_i18n'' =
          Obj [(''fr'', Obj [(''title'', Str ''Bonjour'')]),
               (''en'', Obj [(''title'', Str ''Hello'')]),
               (''de'', Obj [(''title'', Str ''Hallo'')])])"
  by code_simp

end
